theory Spec2Isabelle
  imports Complex_Main
begin

section \<open>Data model of the T-Rex game component\<close>

text \<open>
  The component \<open>TRexGame\<close> of \<open>src/src/vite-env.d.ts\<close> keeps its simulation in a mutable
  reference (\<open>gameState\<close>, \<open>currentScoreRef\<close>) and its lifecycle in React state
  (\<open>score\<close>, \<open>highScore\<close>, \<open>gameOver\<close>, \<open>gameStarted\<close>, \<open>gameWon\<close>, \<open>darkTheme\<close>).
  Both are fields of one record here, and every function of the component takes the
  record and returns the updated one. The canvas size and scale factor only serve
  drawing and are left out.

  Numbers. A rectangle is a record over any number type \<open>'n\<close>, and the collision test
  asks of \<open>'n\<close> only an addition and an order, with no law assumed of either: what is
  proved of the test holds for the doubles of the language as it does for exact
  numbers. The game state takes the reals for \<open>'n\<close>: the coordinates, speeds and rates
  of a run are computed exactly, in place of IEEE doubles. The score counters only ever
  hold \<open>0\<close> and sums of \<open>10\<close> and are integers. The high score is read from storage
  through \<open>parseInt\<close> and is an integer-valued double, an infinity or \<open>NaN\<close>.
\<close>

record 'n GameObject =
  x :: 'n
  y :: 'n
  width :: 'n
  height :: 'n

record PlayerObject = "real GameObject" +
  velocityY :: real
  isJumping :: bool

record Obstacle = "real GameObject" +
  passed :: bool

record GameState =
  player :: PlayerObject
  obstacles :: "Obstacle list"
  ground :: "real GameObject"
  gameSpeed :: real
  gravity :: real
  jumpPower :: real
  obstacleSpawnRate :: real
  lastObstacleX :: real
  scoreCounter :: int
  animationFrame :: real
  animationSpeed :: real
  lastThemeChangeScore :: int

text \<open>
  A JavaScript number that \<open>parseInt\<close> can return (the high score): \<open>NaN\<close>, an
  infinity, or a double whose value is the integer given.
\<close>

datatype number = NaN | PosInfinity | NegInfinity | Num int

text \<open>
  A JavaScript string is a list of UTF-16 code units (numbers below 65536); \<open>utf16\<close>
  gives the string of an ASCII literal.
\<close>

type_synonym codeUnit = nat

type_synonym jsString = "codeUnit list"

definition utf16 :: "string \<Rightarrow> jsString" where
  "utf16 s = map of_char s"

text \<open>
  \<open>localStorage\<close>: the stored items, and the log of the \<open>setItem\<close> calls made so far
  (latest first), which is how the number of persistence writes is observed.
\<close>

record Storage =
  items :: "jsString \<rightharpoonup> jsString"
  setItemLog :: "(jsString \<times> jsString) list"

definition getItem :: "Storage \<Rightarrow> jsString \<Rightarrow> jsString option" where
  "getItem st k = items st k"

definition setItem :: "jsString \<Rightarrow> jsString \<Rightarrow> Storage \<Rightarrow> Storage" where
  "setItem k v st = st\<lparr>items := (items st)(k \<mapsto> v), setItemLog := (k, v) # setItemLog st\<rparr>"

record TRexGame =
  score :: int
  highScore :: number
  gameOver :: bool
  gameStarted :: bool
  gameWon :: bool
  darkTheme :: bool
  gameState :: GameState
  currentScoreRef :: int
  localStorage :: Storage

definition BASE_WIDTH :: real where
  "BASE_WIDTH = 800"

definition MAX_SCORE :: int where
  "MAX_SCORE = 99999"

definition PLAYER_X_POS :: real where
  "PLAYER_X_POS = BASE_WIDTH / 2 - 20"

section \<open>Number parsing and printing\<close>

text \<open>
  The Number value of a mathematical integer: the nearest double, ties to the even
  significand, and an infinity from \<open>2^1024\<close> on. A double has 53 significant bits, so
  below \<open>2^53\<close> every integer is a double; above, \<open>m\<close> keeps its 53 leading bits
  and the rest is rounded.
\<close>

function bitLength :: "int \<Rightarrow> nat" where
  "bitLength n = (if n \<le> 0 then 0 else Suc (bitLength (n div 2)))"
  by pat_completeness auto
termination
  by (relation "measure nat") auto

declare bitLength.simps [simp del]

definition roundToDouble :: "int \<Rightarrow> int" where
  "roundToDouble m =
     (if m < 2 ^ 53 then m
      else (let e = bitLength m - 53;
                q = m div 2 ^ e;
                r = m mod 2 ^ e;
                half = 2 ^ (e - 1);
                q' = (if half < r \<or> (r = half \<and> odd q) then q + 1 else q)
            in q' * 2 ^ e))"

definition toNumber :: "int \<Rightarrow> number" where
  "toNumber i =
     (let v = roundToDouble \<bar>i\<bar> in
      if 2 ^ 1024 \<le> v then (if i < 0 then NegInfinity else PosInfinity)
      else Num (if i < 0 then - v else v))"

text \<open>
  \<open>parseInt(s, 10)\<close> of the language: leading white space and line terminators are
  skipped, one sign is read, then the longest run of decimal digits; no digit at all
  gives \<open>NaN\<close>, and otherwise the Number value of the signed integer the digits spell.
  (Beyond 20 significant digits the language lets an implementation round the digits
  first; the value here is the correctly rounded one. The result \<open>-0\<close> of
  \<open>parseInt("-0")\<close> is \<open>Num 0\<close> here: no comparison of the program tells the two
  zeros apart.)
\<close>

definition isWhiteSpace :: "codeUnit \<Rightarrow> bool" where
  "isWhiteSpace c =
     (c \<in> {9, 10, 11, 12, 13, 32, 160, 5760, 8232, 8233, 8239, 8287, 12288, 65279} \<or>
      (8192 \<le> c \<and> c \<le> 8202))"

definition isDigit :: "codeUnit \<Rightarrow> bool" where
  "isDigit c = (48 \<le> c \<and> c \<le> 57)"

definition digitValue :: "codeUnit \<Rightarrow> nat" where
  "digitValue c = c - 48"

definition parseInt :: "jsString \<Rightarrow> number" where
  "parseInt s =
     (let t = dropWhile isWhiteSpace s;
          neg = (t \<noteq> [] \<and> hd t = 45);
          u = (if t \<noteq> [] \<and> (hd t = 45 \<or> hd t = 43) then tl t else t);
          z = takeWhile isDigit u;
          n = foldl (\<lambda>a c. 10 * a + int (digitValue c)) 0 z
      in if z = [] then NaN else toNumber (if neg then - n else n))"

text \<open>
  \<open>Number.prototype.toString\<close> on an integer: its decimal digits, with a sign (the
  form the language uses for integers below \<open>10^21\<close>, which covers every score of a
  run).
\<close>

fun digits :: "nat \<Rightarrow> jsString" where
  "digits n = (if n < 10 then [48 + n] else digits (n div 10) @ [48 + n mod 10])"

declare digits.simps [simp del]

definition toString :: "int \<Rightarrow> jsString" where
  "toString n = (if n < 0 then 45 # digits (nat (- n)) else digits (nat n))"

section \<open>Construction, reset and the jump command\<close>

definition initialGameState :: GameState where
  "initialGameState =
     \<lparr> player = \<lparr> x = PLAYER_X_POS, y = 150, width = 40, height = 40,
                  velocityY = 0, isJumping = False \<rparr>,
       obstacles = [],
       ground = \<lparr> x = 0, y = 200, width = 800, height = 20 \<rparr>,
       gameSpeed = 1.5,
       gravity = 0.3,
       jumpPower = - 10,
       obstacleSpawnRate = 0.006,
       lastObstacleX = 800,
       scoreCounter = 0,
       animationFrame = 0,
       animationSpeed = 0.25,
       lastThemeChangeScore = 0 \<rparr>"

text \<open>The values of the \<open>useState\<close> and \<open>useRef\<close> calls, before any effect has run.\<close>

definition initialSession :: "Storage \<Rightarrow> TRexGame" where
  "initialSession store =
     \<lparr> score = 0, highScore = Num 0, gameOver = False, gameStarted = False,
       gameWon = False, darkTheme = False, gameState = initialGameState,
       currentScoreRef = 0, localStorage = store \<rparr>"

text \<open>
  The mount effect: \<open>savedHighScore\<close> is \<open>null\<close> for a missing item; \<open>null\<close> and the empty
  string are falsy, every other string is parsed.
\<close>

definition loadHighScore :: "TRexGame \<Rightarrow> TRexGame" where
  "loadHighScore st =
     (case getItem (localStorage st) (utf16 ''trex-high-score'') of
        None \<Rightarrow> st
      | Some savedHighScore \<Rightarrow>
          if savedHighScore \<noteq> [] then st\<lparr>highScore := parseInt savedHighScore\<rparr> else st)"

definition mount :: "Storage \<Rightarrow> TRexGame" where
  "mount store = loadHighScore (initialSession store)"

definition resetGame :: "TRexGame \<Rightarrow> TRexGame" where
  "resetGame st =
     st\<lparr> score := 0, currentScoreRef := 0, gameOver := False, gameWon := False,
         gameStarted := True, darkTheme := False, gameState := initialGameState \<rparr>"

definition jump :: "TRexGame \<Rightarrow> TRexGame" where
  "jump st =
     (if \<not> gameStarted st then st\<lparr>gameStarted := True\<rparr>
      else if gameOver st \<or> gameWon st then resetGame st
      else if \<not> isJumping (player (gameState st))
        then st\<lparr>gameState := (gameState st)\<lparr>player := (player (gameState st))
                 \<lparr>velocityY := jumpPower (gameState st), isJumping := True\<rparr>\<rparr>\<rparr>
      else st)"

section \<open>The high-score effect\<close>

text \<open>\<open>currentScoreRef.current > highScore\<close>: a comparison with \<open>NaN\<close> is false.\<close>

fun exceeds :: "int \<Rightarrow> number \<Rightarrow> bool" where
  "exceeds s NaN = False"
| "exceeds s PosInfinity = False"
| "exceeds s NegInfinity = True"
| "exceeds s (Num h) = (h < s)"

text \<open>
  The effect with dependencies \<open>[gameOver, highScore]\<close>; it runs after a render in which
  one of them changed.
\<close>

definition highScoreEffect :: "TRexGame \<Rightarrow> TRexGame" where
  "highScoreEffect st =
     (if gameOver st \<and> exceeds (currentScoreRef st) (highScore st)
      then st\<lparr> highScore := Num (currentScoreRef st),
               localStorage := setItem (utf16 ''trex-high-score'') (toString (currentScoreRef st))
                                 (localStorage st) \<rparr>
      else st)"

section \<open>Collision test and theme change\<close>

definition checkCollision ::
  "('n::{plus,ord}, 'a) GameObject_scheme \<Rightarrow> ('n, 'b) GameObject_scheme \<Rightarrow> bool" where
  "checkCollision rect1 rect2 =
     (x rect1 < x rect2 + width rect2 \<and>
      x rect1 + width rect1 > x rect2 \<and>
      y rect1 < y rect2 + height rect2 \<and>
      y rect1 + height rect1 > y rect2)"

definition checkThemeChange :: "int \<Rightarrow> TRexGame \<Rightarrow> TRexGame" where
  "checkThemeChange sc st =
     (if \<lfloor>real_of_int sc / 120\<rfloor> > \<lfloor>real_of_int (lastThemeChangeScore (gameState st)) / 120\<rfloor>
      then st\<lparr> darkTheme := \<not> darkTheme st,
               gameState := (gameState st)\<lparr>lastThemeChangeScore := sc\<rparr> \<rparr>
      else st)"

section \<open>The update step\<close>

text \<open>Block ``Update player physics''.\<close>

definition updatePlayer :: "TRexGame \<Rightarrow> TRexGame" where
  "updatePlayer st =
     (let gs = gameState st; p = player gs in
      if isJumping p then
        (let v = velocityY p + gravity gs; h = y p + v in
         if h \<ge> 150
         then st\<lparr>gameState := gs\<lparr>player := p\<lparr>y := 150, velocityY := 0, isJumping := False\<rparr>\<rparr>\<rparr>
         else st\<lparr>gameState := gs\<lparr>player := p\<lparr>y := h, velocityY := v\<rparr>\<rparr>\<rparr>)
      else st)"

text \<open>Block ``Move ground''.\<close>

definition moveGround :: "TRexGame \<Rightarrow> TRexGame" where
  "moveGround st =
     (let gs = gameState st in
      st\<lparr>gameState := gs\<lparr>ground := (ground gs)\<lparr>x := x (ground gs) - gameSpeed gs\<rparr>\<rparr>\<rparr>)"

text \<open>Block ``Generate obstacles''; \<open>random\<close> is the value \<open>Math.random()\<close> returns.\<close>

definition generateObstacles :: "real \<Rightarrow> TRexGame \<Rightarrow> TRexGame" where
  "generateObstacles random st =
     (let gs = gameState st in
      if random < obstacleSpawnRate gs \<and> BASE_WIDTH - lastObstacleX gs > 400
      then st\<lparr>gameState := gs\<lparr>
             obstacles := obstacles gs @
               [\<lparr> x = BASE_WIDTH, y = 175, width = 18, height = 25, passed = False \<rparr>],
             lastObstacleX := BASE_WIDTH \<rparr>\<rparr>
      else st)"

text \<open>
  The callback of \<open>obstacles.forEach\<close>, statement by statement; \<open>index\<close> is within the
  array whenever the callback runs.
\<close>

definition setObstacles :: "Obstacle list \<Rightarrow> TRexGame \<Rightarrow> TRexGame" where
  "setObstacles obs st = st\<lparr>gameState := (gameState st)\<lparr>obstacles := obs\<rparr>\<rparr>"

definition moveObstacle :: "nat \<Rightarrow> TRexGame \<Rightarrow> TRexGame" where
  "moveObstacle index st =
     (let obs = obstacles (gameState st); obstacle = obs ! index in
      setObstacles (obs[index := obstacle\<lparr>x := x obstacle - gameSpeed (gameState st)\<rparr>]) st)"

definition hasPassed :: "nat \<Rightarrow> TRexGame \<Rightarrow> bool" where
  "hasPassed index st =
     (let obstacle = obstacles (gameState st) ! index; pl = player (gameState st) in
      \<not> passed obstacle \<and> x obstacle + width obstacle < x pl + width pl / 2)"

definition winCheck :: "TRexGame \<Rightarrow> TRexGame" where
  "winCheck st = (if currentScoreRef st \<ge> MAX_SCORE then st\<lparr>gameWon := True\<rparr> else st)"

definition scoreObstacle :: "nat \<Rightarrow> TRexGame \<Rightarrow> TRexGame" where
  "scoreObstacle index st =
     (if hasPassed index st then
        (let obs = obstacles (gameState st);
             st1 = setObstacles (obs[index := (obs ! index)\<lparr>passed := True\<rparr>]) st;
             st2 = st1\<lparr>currentScoreRef := currentScoreRef st1 + 10\<rparr>;
             st3 = st2\<lparr>score := currentScoreRef st2\<rparr>
         in winCheck (checkThemeChange (currentScoreRef st3) st3))
      else st)"

definition collideObstacle :: "nat \<Rightarrow> TRexGame \<Rightarrow> TRexGame" where
  "collideObstacle index st =
     (if checkCollision (player (gameState st)) (obstacles (gameState st) ! index)
      then st\<lparr>gameOver := True\<rparr> else st)"

text \<open>\<open>obstacles.splice(index, 1)\<close> removes the element at \<open>index\<close> and closes the gap.\<close>

definition splice1 :: "nat \<Rightarrow> 'a list \<Rightarrow> 'a list" where
  "splice1 index xs = take index xs @ drop (Suc index) xs"

definition removeObstacle :: "nat \<Rightarrow> TRexGame \<Rightarrow> TRexGame" where
  "removeObstacle index st =
     (let obs = obstacles (gameState st); obstacle = obs ! index in
      if x obstacle + width obstacle < 0 then setObstacles (splice1 index obs) st else st)"

definition obstacleCallback :: "nat \<Rightarrow> TRexGame \<Rightarrow> TRexGame" where
  "obstacleCallback index st =
     removeObstacle index (collideObstacle index (scoreObstacle index (moveObstacle index st)))"

text \<open>
  \<open>Array.prototype.forEach\<close> reads the length once, then visits the indices
  \<open>0, 1, ...\<close> below it in order and skips an index that is no longer in the array.
  After a \<open>splice\<close> at \<open>index\<close> the element that followed moves to \<open>index\<close>, so the
  next visit, at \<open>index + 1\<close>, passes over it.
\<close>

definition visit :: "nat \<Rightarrow> TRexGame \<Rightarrow> TRexGame" where
  "visit index st =
     (if index < length (obstacles (gameState st)) then obstacleCallback index st else st)"

definition forEachObstacle :: "TRexGame \<Rightarrow> TRexGame" where
  "forEachObstacle st = fold visit [0..<length (obstacles (gameState st))] st"

text \<open>The difficulty curve, and the block that stores it after the loop.\<close>

definition newSpeed :: "int \<Rightarrow> real" where
  "newSpeed sc = min (1.5 + real_of_int sc * 0.0008) 6.0"

definition newSpawnRate :: "int \<Rightarrow> real" where
  "newSpawnRate sc = min (0.006 + real_of_int sc * 0.000008) 0.015"

definition updateDifficulty :: "TRexGame \<Rightarrow> TRexGame" where
  "updateDifficulty st =
     (let gs = gameState st; speed = newSpeed (currentScoreRef st) in
      st\<lparr>gameState := gs\<lparr> gameSpeed := speed,
                           obstacleSpawnRate := newSpawnRate (currentScoreRef st),
                           lastObstacleX := lastObstacleX gs - speed \<rparr>\<rparr>)"

text \<open>
  \<open>updateGame\<close> reads the three lifecycle flags once, in its guard; a flag that the
  loop sets (\<open>setGameOver\<close>, \<open>setGameWon\<close>) is stored at once and is seen by the guard of
  the next tick.
\<close>

definition running :: "TRexGame \<Rightarrow> bool" where
  "running st = (gameStarted st \<and> \<not> gameOver st \<and> \<not> gameWon st)"

definition updateGame :: "real \<Rightarrow> TRexGame \<Rightarrow> TRexGame" where
  "updateGame random st =
     (if \<not> gameStarted st \<or> gameOver st \<or> gameWon st then st
      else updateDifficulty (forEachObstacle (generateObstacles random (moveGround (updatePlayer st)))))"

text \<open>
  What \<open>render\<close> writes to the state (the canvas and its context exist while the
  component is mounted): once the game has started it draws the player, and
  \<open>drawPlayer\<close> advances the animation frame. Everything else in it only paints.
\<close>

definition render :: "TRexGame \<Rightarrow> TRexGame" where
  "render st =
     (if \<not> gameStarted st then st
      else (let gs = gameState st;
                dynamicAnimationSpeed = animationSpeed gs * (gameSpeed gs / 1.5)
            in st\<lparr>gameState := gs\<lparr>animationFrame := animationFrame gs + dynamicAnimationSpeed\<rparr>\<rparr>))"

definition gameLoop :: "real \<Rightarrow> TRexGame \<Rightarrow> TRexGame" where
  "gameLoop random st = render (updateGame random st)"

text \<open>\<open>n\<close> ticks of the game loop; \<open>rs k\<close> is the random sample drawn in tick \<open>k\<close>.\<close>

fun ticks :: "(nat \<Rightarrow> real) \<Rightarrow> nat \<Rightarrow> TRexGame \<Rightarrow> TRexGame" where
  "ticks rs 0 st = st"
| "ticks rs (Suc n) st = gameLoop (rs n) (ticks rs n st)"

text \<open>The effect that copies the \<open>score\<close> state into \<open>currentScoreRef\<close> after a render.\<close>

definition syncScore :: "TRexGame \<Rightarrow> TRexGame" where
  "syncScore st = st\<lparr>currentScoreRef := score st\<rparr>"

text \<open>
  The states a session can be in: it is mounted on some storage, and from then on the
  jump command, the update step (with any random sample), the render step and the
  two effects run in any order.
\<close>

inductive reachable :: "TRexGame \<Rightarrow> bool" where
  reach_mount: "reachable (mount store)"
| reach_jump: "reachable st \<Longrightarrow> reachable (jump st)"
| reach_update: "reachable st \<Longrightarrow> reachable (updateGame random st)"
| reach_render: "reachable st \<Longrightarrow> reachable (render st)"
| reach_highScore: "reachable st \<Longrightarrow> reachable (highScoreEffect st)"
| reach_sync: "reachable st \<Longrightarrow> reachable (syncScore st)"

text \<open>The player stands on the ground line, at rest.\<close>

definition landed :: "TRexGame \<Rightarrow> bool" where
  "landed st = (y (player (gameState st)) = 150 \<and> \<not> isJumping (player (gameState st)) \<and>
                velocityY (player (gameState st)) = 0)"

text \<open>
  What holds of the counters in every state a session reaches: the \<open>score\<close> state
  and \<open>currentScoreRef\<close> agree, the score is a non-negative multiple of ten, and the
  score of the last theme change lies in the same block of 120 points as the score.
\<close>

definition sessionInv :: "TRexGame \<Rightarrow> bool" where
  "sessionInv st =
     (score st = currentScoreRef st \<and> 0 \<le> currentScoreRef st \<and> 10 dvd currentScoreRef st \<and>
      lastThemeChangeScore (gameState st) div 120 = currentScoreRef st div 120 \<and>
      gravity (gameState st) = 0.3 \<and> jumpPower (gameState st) = - 10)"

text \<open>A running session with no obstacle, in which the sample \<open>1 / 2\<close> spawns none.\<close>

definition quiet :: "TRexGame \<Rightarrow> bool" where
  "quiet st = (running st \<and> obstacles (gameState st) = [] \<and> obstacleSpawnRate (gameState st) \<le> 1 / 2)"

text \<open>The number of obstacles of the list that are not marked as passed.\<close>

definition unpassed :: "TRexGame \<Rightarrow> nat" where
  "unpassed st = length (filter (\<lambda>ob. \<not> passed ob) (obstacles (gameState st)))"

section \<open>The obstacle loop on the list, and the spacing of obstacles\<close>

text \<open>
  What one callback of the loop does to the obstacle it visits: it is moved left by the
  game speed \<open>s\<close> and marked as passed when it is not yet marked and its right edge is
  left of the line \<open>c\<close> (the player's centre).
\<close>

definition movedObstacle :: "real \<Rightarrow> real \<Rightarrow> Obstacle \<Rightarrow> Obstacle" where
  "movedObstacle s c ob =
     (if \<not> passed ob \<and> x ob - s + width ob < c then ob\<lparr>x := x ob - s, passed := True\<rparr>
      else ob\<lparr>x := x ob - s\<rparr>)"

text \<open>
  What the visit of index \<open>k\<close> does to the list: the obstacle at \<open>k\<close> is replaced by the
  moved one, or removed when the moved one is off the field.
\<close>

definition visitList :: "real \<Rightarrow> real \<Rightarrow> nat \<Rightarrow> Obstacle list \<Rightarrow> Obstacle list" where
  "visitList s c k obs =
     (if k < length obs
      then (if x (movedObstacle s c (obs ! k)) + width (movedObstacle s c (obs ! k)) < 0
            then splice1 k obs else obs[k := movedObstacle s c (obs ! k)])
      else obs)"

definition passLine :: "TRexGame \<Rightarrow> real" where
  "passLine st = x (player (gameState st)) + width (player (gameState st)) / 2"

text \<open>The state of the loop after the visits of the indices below \<open>k\<close>.\<close>

definition loopTo :: "nat \<Rightarrow> TRexGame \<Rightarrow> TRexGame" where
  "loopTo k st = fold visit [0..<k] st"

text \<open>
  The obstacle lists of a run. Every obstacle is 18 wide, has its right edge on the
  field, and is right of the player's centre line as long as it is not marked as
  passed; each obstacle is more than 383 right of the ones before it in the list (389
  from the second on); and the last one is not far right of \<open>lastObstacleX\<close>, which is
  what keeps a new obstacle, spawned at 800 when \<open>lastObstacleX\<close> is below 400, at that
  distance.
\<close>

definition wellFormed :: "Obstacle list \<Rightarrow> bool" where
  "wellFormed obs = (\<forall>e \<in> set obs. width e = 18 \<and> 0 \<le> x e + 18 \<and> (\<not> passed e \<longrightarrow> 382 \<le> x e))"

definition gappedBy :: "real \<Rightarrow> real \<Rightarrow> Obstacle list \<Rightarrow> bool" where
  "gappedBy g0 g obs =
     (\<forall>a b. a < b \<and> b < length obs \<longrightarrow> x (obs ! a) + (if a = 0 then g0 else g) \<le> x (obs ! b))"

definition slackOk :: "real \<Rightarrow> Obstacle list \<Rightarrow> bool" where
  "slackOk bound obs =
     (obs \<noteq> [] \<longrightarrow> x (last obs) \<le> bound + (if length obs = 1 then 9 / 2 else - 3 / 2))"

definition spaced :: "TRexGame \<Rightarrow> bool" where
  "spaced st =
     (x (player (gameState st)) = 380 \<and> width (player (gameState st)) = 40 \<and>
      3 / 2 \<le> gameSpeed (gameState st) \<and> gameSpeed (gameState st) \<le> 6 \<and>
      wellFormed (obstacles (gameState st)) \<and>
      gappedBy (767 / 2) (779 / 2) (obstacles (gameState st)) \<and>
      slackOk (lastObstacleX (gameState st) + gameSpeed (gameState st)) (obstacles (gameState st)))"

text \<open>
  Inside the loop, before the visit of index \<open>k\<close>: the obstacles still to be visited
  are spaced, the score is the score \<open>sc0\<close> of the start of the loop or ten more, and
  once it is ten more, the obstacles still to be visited are far right of the player.
\<close>

definition aheadOk :: "int \<Rightarrow> nat \<Rightarrow> TRexGame \<Rightarrow> bool" where
  "aheadOk sc0 k t =
     (x (player (gameState t)) = 380 \<and> width (player (gameState t)) = 40 \<and>
      0 \<le> gameSpeed (gameState t) \<and> gameSpeed (gameState t) \<le> 6 \<and>
      wellFormed (drop k (obstacles (gameState t))) \<and>
      gappedBy (767 / 2) (767 / 2) (drop k (obstacles (gameState t))) \<and>
      sc0 \<le> currentScoreRef t \<and> currentScoreRef t \<le> sc0 + 10 \<and>
      (currentScoreRef t \<noteq> sc0 \<longrightarrow> (\<forall>e \<in> set (drop k (obstacles (gameState t))). 765 \<le> x e)))"

section \<open>Example sessions\<close>

definition emptyStorage :: Storage where
  "emptyStorage = \<lparr> items = Map.empty, setItemLog = [] \<rparr>"

definition corruptStorage :: Storage where
  "corruptStorage = \<lparr> items = [utf16 ''trex-high-score'' \<mapsto> utf16 ''abc''], setItemLog = [] \<rparr>"

text \<open>A fresh session after the first key press: running, player on the ground.\<close>

definition startedGame :: TRexGame where
  "startedGame = jump (mount emptyStorage)"

definition cactus :: "real \<Rightarrow> bool \<Rightarrow> Obstacle" where
  "cactus pos p = \<lparr> x = pos, y = 175, width = 18, height = 25, passed = p \<rparr>"

text \<open>A cactus just right of the player, who is still on the ground.\<close>

definition lateJump :: TRexGame where
  "lateJump = setObstacles [cactus 420.5 False] startedGame"

text \<open>
  One obstacle short of the maximum score, at full speed, the player in the air at
  height \<open>h\<close> with velocity \<open>v\<close> and the last cactus about to pass the player's centre.
\<close>

definition nearWin :: "real \<Rightarrow> real \<Rightarrow> TRexGame" where
  "nearWin h v =
     startedGame\<lparr> score := 99990, currentScoreRef := 99990, highScore := Num 500,
       darkTheme := True,
       gameState := initialGameState\<lparr>
         player := (player initialGameState)\<lparr>y := h, velocityY := v, isJumping := True\<rparr>,
         obstacles := [cactus 386 False], gameSpeed := 6, obstacleSpawnRate := 0.015,
         lastObstacleX := 380, lastThemeChangeScore := 99960 \<rparr> \<rparr>"


text \<open>
  As \<open>nearWin 13 (- 4)\<close>, with a second cactus that was spawned in the tick before.
\<close>

definition nearWinTwo :: TRexGame where
  "nearWinTwo =
     (nearWin 13 (- 4))\<lparr>gameState := (gameState (nearWin 13 (- 4)))
       \<lparr> obstacles := [cactus 386 False, cactus 794 False], lastObstacleX := 794 \<rparr>\<rparr>"

text \<open>Score 115 and two obstacles left of the player that are not yet counted.\<close>

definition doublePass :: TRexGame where
  "doublePass = (setObstacles [cactus 300 False, cactus 200 False] startedGame)
                  \<lparr> score := 115, currentScoreRef := 115 \<rparr>"

text \<open>
  A running game at score 1000, with the speed and the spawn rate of that score, the
  player in the air over a cactus that is about to pass the player's centre.
\<close>

definition midGame :: TRexGame where
  "midGame =
     startedGame\<lparr> score := 1000, currentScoreRef := 1000,
       gameState := initialGameState\<lparr>
         player := (player initialGameState)\<lparr>y := 20, velocityY := 2, isJumping := True\<rparr>,
         obstacles := [cactus 383 False], gameSpeed := 2.3, obstacleSpawnRate := 0.014,
         lastObstacleX := 500, lastThemeChangeScore := 960 \<rparr> \<rparr>"

text \<open>One counted obstacle behind the player, score 10.\<close>

definition scoredOnce :: TRexGame where
  "scoredOnce = updateGame (1 / 2) (setObstacles [cactus 300 False] startedGame)"




section \<open>Basic facts about the update step\<close>

lemmas session_defs =
  startedGame_def jump_def mount_def loadHighScore_def initialSession_def emptyStorage_def
  getItem_def initialGameState_def PLAYER_X_POS_def BASE_WIDTH_def MAX_SCORE_def
  setObstacles_def cactus_def running_def

lemmas update_defs =
  updateGame_def updatePlayer_def moveGround_def generateObstacles_def forEachObstacle_def
  visit_def obstacleCallback_def moveObstacle_def scoreObstacle_def hasPassed_def winCheck_def
  checkThemeChange_def collideObstacle_def checkCollision_def removeObstacle_def splice1_def
  updateDifficulty_def newSpeed_def newSpawnRate_def Let_def

lemma upt_0_1: "[0..<1] = [0]"
  by (simp add: upt_rec)

lemma upt_0_2: "[0..<2] = [0, 1]"
  by (simp add: upt_rec)

lemma floor_div120: "\<lfloor>real_of_int k / 120\<rfloor> = k div 120"
  using floor_divide_of_int_eq [of k 120] by simp

text \<open>A property that every run of the callback keeps is kept by the whole loop.\<close>

lemma fold_visit_invariant:
  assumes step: "\<And>k s. P s \<Longrightarrow> P (visit k s)"
  shows "P st \<Longrightarrow> P (fold visit ks st)"
proof (induction ks arbitrary: st)
  case Nil
  then show ?case by simp
next
  case (Cons k ks)
  from Cons.prems have "P (visit k st)" by (rule step)
  then have "P (fold visit ks (visit k st))" by (rule Cons.IH)
  then show ?case by simp
qed

lemma forEachObstacle_invariant:
  assumes step: "\<And>k s. P s \<Longrightarrow> k < length (obstacles (gameState s)) \<Longrightarrow> P (obstacleCallback k s)"
    and init: "P st"
  shows "P (forEachObstacle st)"
  unfolding forEachObstacle_def
proof (rule fold_visit_invariant [where P = P])
  show "P st" by (rule init)
next
  fix k s assume inv: "P s"
  show "P (visit k s)"
  proof (cases "k < length (obstacles (gameState s))")
    case True
    with inv have "P (obstacleCallback k s)" by (rule step)
    with True show ?thesis by (simp only: visit_def if_True)
  next
    case False
    with inv show ?thesis by (simp only: visit_def if_False)
  qed
qed

text \<open>What each statement of the callback leaves alone.\<close>

lemma setObstacles_fields [simp]:
  "obstacles (gameState (setObstacles obs s)) = obs"
  "player (gameState (setObstacles obs s)) = player (gameState s)"
  "gravity (gameState (setObstacles obs s)) = gravity (gameState s)"
  "jumpPower (gameState (setObstacles obs s)) = jumpPower (gameState s)"
  "gameSpeed (gameState (setObstacles obs s)) = gameSpeed (gameState s)"
  "lastThemeChangeScore (gameState (setObstacles obs s)) = lastThemeChangeScore (gameState s)"
  "currentScoreRef (setObstacles obs s) = currentScoreRef s"
  "score (setObstacles obs s) = score s"
  "gameWon (setObstacles obs s) = gameWon s"
  "gameOver (setObstacles obs s) = gameOver s"
  "gameStarted (setObstacles obs s) = gameStarted s"
  "darkTheme (setObstacles obs s) = darkTheme s"
  by (simp_all add: setObstacles_def)

lemma moveObstacle_fields [simp]:
  "player (gameState (moveObstacle i s)) = player (gameState s)"
  "gravity (gameState (moveObstacle i s)) = gravity (gameState s)"
  "jumpPower (gameState (moveObstacle i s)) = jumpPower (gameState s)"
  "gameSpeed (gameState (moveObstacle i s)) = gameSpeed (gameState s)"
  "lastThemeChangeScore (gameState (moveObstacle i s)) = lastThemeChangeScore (gameState s)"
  "currentScoreRef (moveObstacle i s) = currentScoreRef s"
  "score (moveObstacle i s) = score s"
  "gameWon (moveObstacle i s) = gameWon s"
  "gameOver (moveObstacle i s) = gameOver s"
  "gameStarted (moveObstacle i s) = gameStarted s"
  "darkTheme (moveObstacle i s) = darkTheme s"
  "length (obstacles (gameState (moveObstacle i s))) = length (obstacles (gameState s))"
  by (simp_all add: moveObstacle_def Let_def)

lemma moveObstacle_passed [simp]:
  "i < length (obstacles (gameState s)) \<Longrightarrow>
   passed (obstacles (gameState (moveObstacle i s)) ! i) = passed (obstacles (gameState s) ! i)"
  by (simp add: moveObstacle_def Let_def)

lemma checkThemeChange_fields [simp]:
  "obstacles (gameState (checkThemeChange sc s)) = obstacles (gameState s)"
  "player (gameState (checkThemeChange sc s)) = player (gameState s)"
  "gravity (gameState (checkThemeChange sc s)) = gravity (gameState s)"
  "jumpPower (gameState (checkThemeChange sc s)) = jumpPower (gameState s)"
  "gameSpeed (gameState (checkThemeChange sc s)) = gameSpeed (gameState s)"
  "currentScoreRef (checkThemeChange sc s) = currentScoreRef s"
  "score (checkThemeChange sc s) = score s"
  "gameWon (checkThemeChange sc s) = gameWon s"
  "gameOver (checkThemeChange sc s) = gameOver s"
  "gameStarted (checkThemeChange sc s) = gameStarted s"
  by (simp_all add: checkThemeChange_def)

lemma checkThemeChange_theme:
  "darkTheme (checkThemeChange sc s) =
     (if sc div 120 > lastThemeChangeScore (gameState s) div 120 then \<not> darkTheme s else darkTheme s)"
  "lastThemeChangeScore (gameState (checkThemeChange sc s)) =
     (if sc div 120 > lastThemeChangeScore (gameState s) div 120 then sc
      else lastThemeChangeScore (gameState s))"
  by (simp_all add: checkThemeChange_def floor_div120)

lemma winCheck_fields [simp]:
  "gameState (winCheck s) = gameState s"
  "currentScoreRef (winCheck s) = currentScoreRef s"
  "score (winCheck s) = score s"
  "gameOver (winCheck s) = gameOver s"
  "gameStarted (winCheck s) = gameStarted s"
  "darkTheme (winCheck s) = darkTheme s"
  "gameWon (winCheck s) = (gameWon s \<or> MAX_SCORE \<le> currentScoreRef s)"
  by (simp_all add: winCheck_def)

lemma scoreObstacle_fields [simp]:
  "player (gameState (scoreObstacle i s)) = player (gameState s)"
  "gravity (gameState (scoreObstacle i s)) = gravity (gameState s)"
  "jumpPower (gameState (scoreObstacle i s)) = jumpPower (gameState s)"
  "gameSpeed (gameState (scoreObstacle i s)) = gameSpeed (gameState s)"
  "gameOver (scoreObstacle i s) = gameOver s"
  "gameStarted (scoreObstacle i s) = gameStarted s"
  "length (obstacles (gameState (scoreObstacle i s))) = length (obstacles (gameState s))"
  by (simp_all add: scoreObstacle_def Let_def)

lemma scoreObstacle_score:
  "currentScoreRef (scoreObstacle i s) = (if hasPassed i s then currentScoreRef s + 10 else currentScoreRef s)"
  "score (scoreObstacle i s) = (if hasPassed i s then currentScoreRef s + 10 else score s)"
  "gameWon (scoreObstacle i s) = (gameWon s \<or> (hasPassed i s \<and> MAX_SCORE \<le> currentScoreRef s + 10))"
  by (simp_all add: scoreObstacle_def Let_def)

lemma scoreObstacle_theme:
  "darkTheme (scoreObstacle i s) =
     (if hasPassed i s \<and> (currentScoreRef s + 10) div 120 > lastThemeChangeScore (gameState s) div 120
      then \<not> darkTheme s else darkTheme s)"
  "lastThemeChangeScore (gameState (scoreObstacle i s)) =
     (if hasPassed i s \<and> (currentScoreRef s + 10) div 120 > lastThemeChangeScore (gameState s) div 120
      then currentScoreRef s + 10 else lastThemeChangeScore (gameState s))"
  by (simp_all add: scoreObstacle_def Let_def checkThemeChange_theme)

lemma scoreObstacle_obstacles:
  "obstacles (gameState (scoreObstacle i s)) =
     (if hasPassed i s then (obstacles (gameState s))[i := (obstacles (gameState s) ! i)\<lparr>passed := True\<rparr>]
      else obstacles (gameState s))"
  by (simp add: scoreObstacle_def Let_def)

lemma collideObstacle_fields [simp]:
  "gameState (collideObstacle i s) = gameState s"
  "currentScoreRef (collideObstacle i s) = currentScoreRef s"
  "score (collideObstacle i s) = score s"
  "gameWon (collideObstacle i s) = gameWon s"
  "gameStarted (collideObstacle i s) = gameStarted s"
  "darkTheme (collideObstacle i s) = darkTheme s"
  by (simp_all add: collideObstacle_def)

lemma removeObstacle_fields [simp]:
  "player (gameState (removeObstacle i s)) = player (gameState s)"
  "gravity (gameState (removeObstacle i s)) = gravity (gameState s)"
  "jumpPower (gameState (removeObstacle i s)) = jumpPower (gameState s)"
  "gameSpeed (gameState (removeObstacle i s)) = gameSpeed (gameState s)"
  "lastThemeChangeScore (gameState (removeObstacle i s)) = lastThemeChangeScore (gameState s)"
  "currentScoreRef (removeObstacle i s) = currentScoreRef s"
  "score (removeObstacle i s) = score s"
  "gameWon (removeObstacle i s) = gameWon s"
  "gameOver (removeObstacle i s) = gameOver s"
  "gameStarted (removeObstacle i s) = gameStarted s"
  "darkTheme (removeObstacle i s) = darkTheme s"
  by (simp_all add: removeObstacle_def Let_def)

lemma obstacleCallback_frame [simp]:
  "player (gameState (obstacleCallback i s)) = player (gameState s)"
  "gravity (gameState (obstacleCallback i s)) = gravity (gameState s)"
  "jumpPower (gameState (obstacleCallback i s)) = jumpPower (gameState s)"
  "gameSpeed (gameState (obstacleCallback i s)) = gameSpeed (gameState s)"
  "gameStarted (obstacleCallback i s) = gameStarted s"
  by (simp_all add: obstacleCallback_def)

lemma obstacleCallback_score:
  "currentScoreRef (obstacleCallback i s) =
     (if hasPassed i (moveObstacle i s) then currentScoreRef s + 10 else currentScoreRef s)"
  "score (obstacleCallback i s) =
     (if hasPassed i (moveObstacle i s) then currentScoreRef s + 10 else score s)"
  "gameWon (obstacleCallback i s) =
     (gameWon s \<or> (hasPassed i (moveObstacle i s) \<and> MAX_SCORE \<le> currentScoreRef s + 10))"
  by (simp_all add: obstacleCallback_def scoreObstacle_score)

lemma obstacleCallback_theme:
  "darkTheme (obstacleCallback i s) =
     (if hasPassed i (moveObstacle i s) \<and>
         (currentScoreRef s + 10) div 120 > lastThemeChangeScore (gameState s) div 120
      then \<not> darkTheme s else darkTheme s)"
  "lastThemeChangeScore (gameState (obstacleCallback i s)) =
     (if hasPassed i (moveObstacle i s) \<and>
         (currentScoreRef s + 10) div 120 > lastThemeChangeScore (gameState s) div 120
      then currentScoreRef s + 10 else lastThemeChangeScore (gameState s))"
  by (simp_all add: obstacleCallback_def scoreObstacle_theme)

lemma forEachObstacle_frame:
  "player (gameState (forEachObstacle s)) = player (gameState s) \<and>
   gravity (gameState (forEachObstacle s)) = gravity (gameState s) \<and>
   jumpPower (gameState (forEachObstacle s)) = jumpPower (gameState s) \<and>
   gameStarted (forEachObstacle s) = gameStarted s"
  by (rule forEachObstacle_invariant
        [where P = "\<lambda>t. player (gameState t) = player (gameState s) \<and>
                        gravity (gameState t) = gravity (gameState s) \<and>
                        jumpPower (gameState t) = jumpPower (gameState s) \<and>
                        gameStarted t = gameStarted s"]) simp_all

text \<open>What the blocks around the loop leave alone.\<close>

lemma updatePlayer_fields [simp]:
  "obstacles (gameState (updatePlayer s)) = obstacles (gameState s)"
  "gravity (gameState (updatePlayer s)) = gravity (gameState s)"
  "jumpPower (gameState (updatePlayer s)) = jumpPower (gameState s)"
  "gameSpeed (gameState (updatePlayer s)) = gameSpeed (gameState s)"
  "obstacleSpawnRate (gameState (updatePlayer s)) = obstacleSpawnRate (gameState s)"
  "lastObstacleX (gameState (updatePlayer s)) = lastObstacleX (gameState s)"
  "lastThemeChangeScore (gameState (updatePlayer s)) = lastThemeChangeScore (gameState s)"
  "currentScoreRef (updatePlayer s) = currentScoreRef s"
  "score (updatePlayer s) = score s"
  "gameWon (updatePlayer s) = gameWon s"
  "gameOver (updatePlayer s) = gameOver s"
  "gameStarted (updatePlayer s) = gameStarted s"
  "darkTheme (updatePlayer s) = darkTheme s"
  by (simp_all add: updatePlayer_def Let_def)

lemma moveGround_fields [simp]:
  "obstacles (gameState (moveGround s)) = obstacles (gameState s)"
  "player (gameState (moveGround s)) = player (gameState s)"
  "gravity (gameState (moveGround s)) = gravity (gameState s)"
  "jumpPower (gameState (moveGround s)) = jumpPower (gameState s)"
  "gameSpeed (gameState (moveGround s)) = gameSpeed (gameState s)"
  "obstacleSpawnRate (gameState (moveGround s)) = obstacleSpawnRate (gameState s)"
  "lastObstacleX (gameState (moveGround s)) = lastObstacleX (gameState s)"
  "lastThemeChangeScore (gameState (moveGround s)) = lastThemeChangeScore (gameState s)"
  "currentScoreRef (moveGround s) = currentScoreRef s"
  "score (moveGround s) = score s"
  "gameWon (moveGround s) = gameWon s"
  "gameOver (moveGround s) = gameOver s"
  "gameStarted (moveGround s) = gameStarted s"
  "darkTheme (moveGround s) = darkTheme s"
  by (simp_all add: moveGround_def Let_def)

lemma generateObstacles_fields [simp]:
  "player (gameState (generateObstacles r s)) = player (gameState s)"
  "gravity (gameState (generateObstacles r s)) = gravity (gameState s)"
  "jumpPower (gameState (generateObstacles r s)) = jumpPower (gameState s)"
  "gameSpeed (gameState (generateObstacles r s)) = gameSpeed (gameState s)"
  "lastThemeChangeScore (gameState (generateObstacles r s)) = lastThemeChangeScore (gameState s)"
  "currentScoreRef (generateObstacles r s) = currentScoreRef s"
  "score (generateObstacles r s) = score s"
  "gameWon (generateObstacles r s) = gameWon s"
  "gameOver (generateObstacles r s) = gameOver s"
  "gameStarted (generateObstacles r s) = gameStarted s"
  "darkTheme (generateObstacles r s) = darkTheme s"
  by (simp_all add: generateObstacles_def Let_def)

lemma generateObstacles_obstacles:
  "obstacles (gameState (generateObstacles r (moveGround (updatePlayer s)))) =
   obstacles (gameState (generateObstacles r s))"
  by (simp add: generateObstacles_def Let_def)

lemma updateDifficulty_fields [simp]:
  "player (gameState (updateDifficulty s)) = player (gameState s)"
  "obstacles (gameState (updateDifficulty s)) = obstacles (gameState s)"
  "gravity (gameState (updateDifficulty s)) = gravity (gameState s)"
  "jumpPower (gameState (updateDifficulty s)) = jumpPower (gameState s)"
  "lastThemeChangeScore (gameState (updateDifficulty s)) = lastThemeChangeScore (gameState s)"
  "currentScoreRef (updateDifficulty s) = currentScoreRef s"
  "score (updateDifficulty s) = score s"
  "gameWon (updateDifficulty s) = gameWon s"
  "gameOver (updateDifficulty s) = gameOver s"
  "gameStarted (updateDifficulty s) = gameStarted s"
  "darkTheme (updateDifficulty s) = darkTheme s"
  "gameSpeed (gameState (updateDifficulty s)) = newSpeed (currentScoreRef s)"
  "obstacleSpawnRate (gameState (updateDifficulty s)) = newSpawnRate (currentScoreRef s)"
  by (simp_all add: updateDifficulty_def Let_def)

lemma render_fields [simp]:
  "player (gameState (render s)) = player (gameState s)"
  "obstacles (gameState (render s)) = obstacles (gameState s)"
  "gravity (gameState (render s)) = gravity (gameState s)"
  "jumpPower (gameState (render s)) = jumpPower (gameState s)"
  "gameSpeed (gameState (render s)) = gameSpeed (gameState s)"
  "obstacleSpawnRate (gameState (render s)) = obstacleSpawnRate (gameState s)"
  "lastThemeChangeScore (gameState (render s)) = lastThemeChangeScore (gameState s)"
  "currentScoreRef (render s) = currentScoreRef s"
  "score (render s) = score s"
  "highScore (render s) = highScore s"
  "localStorage (render s) = localStorage s"
  "gameWon (render s) = gameWon s"
  "gameOver (render s) = gameOver s"
  "gameStarted (render s) = gameStarted s"
  "darkTheme (render s) = darkTheme s"
  "running (render s) = running s"
  by (simp_all add: render_def running_def Let_def)

lemma updateGame_running:
  "running st \<Longrightarrow>
   updateGame r st = updateDifficulty (forEachObstacle (generateObstacles r (moveGround (updatePlayer st))))"
  by (simp add: updateGame_def running_def)

lemma updateGame_stopped: "\<not> running st \<Longrightarrow> updateGame r st = st"
  by (auto simp add: updateGame_def running_def)

text \<open>Once a run has ended, the ticks that follow only advance the animation frame.\<close>

lemma ticks_stopped:
  assumes "\<not> running st"
  shows "\<not> running (ticks rs n st) \<and>
         player (gameState (ticks rs n st)) = player (gameState st) \<and>
         obstacles (gameState (ticks rs n st)) = obstacles (gameState st) \<and>
         currentScoreRef (ticks rs n st) = currentScoreRef st \<and>
         score (ticks rs n st) = score st \<and>
         gameOver (ticks rs n st) = gameOver st \<and>
         gameWon (ticks rs n st) = gameWon st"
proof (induction n)
  case 0
  from assms show ?case by simp
next
  case (Suc n)
  then show ?case by (simp add: gameLoop_def updateGame_stopped)
qed

lemma ticks_const_Suc: "ticks (\<lambda>_. c) (Suc n) s = ticks (\<lambda>_. c) n (gameLoop c s)"
  by (induction n) simp_all

lemma updateGame_player:
  assumes "running s"
  shows "player (gameState (updateGame r s)) = player (gameState (updatePlayer s))"
    and "gravity (gameState (updateGame r s)) = gravity (gameState s)"
    and "jumpPower (gameState (updateGame r s)) = jumpPower (gameState s)"
  using assms forEachObstacle_frame [of "generateObstacles r (moveGround (updatePlayer s))"]
  by (simp_all add: updateGame_running)

lemma div120_step: "(r + 10) div 120 = r div 120 \<or> (r + 10) div 120 = r div 120 + 1" for r :: int
proof -
  have lo: "r div 120 \<le> (r + 10) div 120"
    by (rule zdiv_mono1) simp_all
  have "(r + 10) div 120 \<le> (r + 120) div 120"
    by (rule zdiv_mono1) simp_all
  also have "(r + 120) div 120 = r div 120 + 1"
    by simp
  finally show ?thesis using lo by linarith
qed

lemma forEachObstacle_theme:
  assumes "lastThemeChangeScore (gameState s) div 120 = currentScoreRef s div 120"
  shows "lastThemeChangeScore (gameState (forEachObstacle s)) div 120 = currentScoreRef (forEachObstacle s) div 120 \<and>
         darkTheme (forEachObstacle s) =
           (darkTheme s \<noteq> odd (currentScoreRef (forEachObstacle s) div 120 - currentScoreRef s div 120))"
proof (rule forEachObstacle_invariant
        [where P = "\<lambda>t. lastThemeChangeScore (gameState t) div 120 = currentScoreRef t div 120 \<and>
                        darkTheme t = (darkTheme s \<noteq> odd (currentScoreRef t div 120 - currentScoreRef s div 120))"])
  show "lastThemeChangeScore (gameState s) div 120 = currentScoreRef s div 120 \<and>
        darkTheme s = (darkTheme s \<noteq> odd (currentScoreRef s div 120 - currentScoreRef s div 120))"
    using assms by simp
next
  fix k and t :: TRexGame
  assume inv: "lastThemeChangeScore (gameState t) div 120 = currentScoreRef t div 120 \<and>
               darkTheme t = (darkTheme s \<noteq> odd (currentScoreRef t div 120 - currentScoreRef s div 120))"
  show "lastThemeChangeScore (gameState (obstacleCallback k t)) div 120 = currentScoreRef (obstacleCallback k t) div 120 \<and>
        darkTheme (obstacleCallback k t) =
          (darkTheme s \<noteq> odd (currentScoreRef (obstacleCallback k t) div 120 - currentScoreRef s div 120))"
    using inv div120_step [of "currentScoreRef t"]
    by (auto simp add: obstacleCallback_score obstacleCallback_theme)
qed

text \<open>The counters and constants of a session, in every state it reaches.\<close>

lemma forEachObstacle_counters:
  assumes "score s = currentScoreRef s" "0 \<le> currentScoreRef s" "10 dvd currentScoreRef s"
  shows "score (forEachObstacle s) = currentScoreRef (forEachObstacle s) \<and>
         0 \<le> currentScoreRef (forEachObstacle s) \<and> 10 dvd currentScoreRef (forEachObstacle s)"
  by (rule forEachObstacle_invariant
        [where P = "\<lambda>t. score t = currentScoreRef t \<and> 0 \<le> currentScoreRef t \<and> 10 dvd currentScoreRef t"])
     (auto simp add: obstacleCallback_score assms)

lemma updateGame_sessionInv:
  assumes "sessionInv s"
  shows "sessionInv (updateGame r s)"
proof (cases "running s")
  case False
  with assms show ?thesis by (simp add: updateGame_stopped)
next
  case True
  let ?p = "generateObstacles r (moveGround (updatePlayer s))"
  from assms have c: "score ?p = currentScoreRef ?p" "0 \<le> currentScoreRef ?p" "10 dvd currentScoreRef ?p"
    and t: "lastThemeChangeScore (gameState ?p) div 120 = currentScoreRef ?p div 120"
    by (simp_all add: sessionInv_def)
  from forEachObstacle_counters [OF c] forEachObstacle_theme [OF t] assms True
  show ?thesis
    by (simp add: sessionInv_def updateGame_player) (simp add: updateGame_running)
qed

lemma reachable_sessionInv: "reachable s \<Longrightarrow> sessionInv s"
proof (induction rule: reachable.induct)
  case (reach_mount store)
  show ?case
    by (simp add: sessionInv_def mount_def loadHighScore_def initialSession_def
          initialGameState_def split: option.splits)
next
  case (reach_jump st)
  then show ?case
    by (simp add: sessionInv_def jump_def resetGame_def initialGameState_def)
next
  case (reach_update st random)
  from reach_update.IH show ?case by (rule updateGame_sessionInv)
next
  case (reach_render st)
  then show ?case by (simp add: sessionInv_def)
next
  case (reach_highScore st)
  then show ?case by (simp add: sessionInv_def highScoreEffect_def)
next
  case (reach_sync st)
  then show ?case by (simp add: sessionInv_def syncScore_def)
qed

text \<open>The tick that wins the example game without a collision.\<close>

lemma nearWin_high:
  "running (nearWin 13 (- 4))"
  "highScore (nearWin 13 (- 4)) = Num 500"
  "currentScoreRef (nearWin 13 (- 4)) = 99990"
  "gameWon (updateGame (1 / 2) (nearWin 13 (- 4)))"
  "\<not> gameOver (updateGame (1 / 2) (nearWin 13 (- 4)))"
  "currentScoreRef (updateGame (1 / 2) (nearWin 13 (- 4))) = 100000"
  "highScore (updateGame (1 / 2) (nearWin 13 (- 4))) = Num 500"
  "setItemLog (localStorage (updateGame (1 / 2) (nearWin 13 (- 4)))) = []"
  by (simp_all add: nearWin_def session_defs update_defs upt_0_1)

section \<open>The score\<close>

lemma filter_update_same:
  "i < length xs \<Longrightarrow> P v = P (xs ! i) \<Longrightarrow> length (filter P (xs[i := v])) = length (filter P xs)"
  by (induction xs arbitrary: i) (auto split: nat.splits)

lemma filter_update_drop:
  "i < length xs \<Longrightarrow> P (xs ! i) \<Longrightarrow> \<not> P v \<Longrightarrow>
   Suc (length (filter P (xs[i := v]))) = length (filter P xs)"
  by (induction xs arbitrary: i) (auto split: nat.splits)

lemma filter_splice1: "length (filter P (splice1 i xs)) \<le> length (filter P xs)"
proof (induction xs arbitrary: i)
  case Nil
  show ?case by (simp add: splice1_def)
next
  case (Cons a xs)
  show ?case
  proof (cases i)
    case 0
    then show ?thesis by (simp add: splice1_def)
  next
    case (Suc j)
    with Cons.IH [of j] show ?thesis by (simp add: splice1_def)
  qed
qed

lemma unpassed_moveObstacle:
  "i < length (obstacles (gameState s)) \<Longrightarrow> unpassed (moveObstacle i s) = unpassed s"
  by (simp add: unpassed_def moveObstacle_def Let_def filter_update_same)

lemma unpassed_scoreObstacle:
  "i < length (obstacles (gameState s)) \<Longrightarrow>
   unpassed (scoreObstacle i s) + (if hasPassed i s then 1 else 0) = unpassed s"
  using filter_update_drop [of i "obstacles (gameState s)" "\<lambda>ob. \<not> passed ob"
          "(obstacles (gameState s) ! i)\<lparr>passed := True\<rparr>"]
  by (auto simp add: unpassed_def scoreObstacle_obstacles hasPassed_def Let_def)

lemma unpassed_collideObstacle: "unpassed (collideObstacle i s) = unpassed s"
  by (simp add: unpassed_def)

lemma unpassed_removeObstacle: "unpassed (removeObstacle i s) \<le> unpassed s"
  by (simp add: unpassed_def removeObstacle_def Let_def filter_splice1)

lemma unpassed_obstacleCallback:
  assumes "i < length (obstacles (gameState s))"
  shows "unpassed (obstacleCallback i s) + (if hasPassed i (moveObstacle i s) then 1 else 0) \<le> unpassed s"
proof -
  let ?m = "moveObstacle i s"
  have "unpassed (obstacleCallback i s) \<le> unpassed (scoreObstacle i ?m)"
    using unpassed_removeObstacle [of i "collideObstacle i (scoreObstacle i ?m)"]
    by (simp add: obstacleCallback_def unpassed_collideObstacle)
  moreover have "unpassed (scoreObstacle i ?m) + (if hasPassed i ?m then 1 else 0) = unpassed s"
    using unpassed_scoreObstacle [of i ?m] assms by (simp add: unpassed_moveObstacle)
  ultimately show ?thesis by simp
qed

lemma forEachObstacle_score:
  "currentScoreRef s \<le> currentScoreRef (forEachObstacle s) \<and>
   10 dvd (currentScoreRef (forEachObstacle s) - currentScoreRef s) \<and>
   currentScoreRef (forEachObstacle s) + 10 * int (unpassed (forEachObstacle s))
     \<le> currentScoreRef s + 10 * int (unpassed s)"
proof (rule forEachObstacle_invariant
        [where P = "\<lambda>t. currentScoreRef s \<le> currentScoreRef t \<and>
                        10 dvd (currentScoreRef t - currentScoreRef s) \<and>
                        currentScoreRef t + 10 * int (unpassed t) \<le> currentScoreRef s + 10 * int (unpassed s)"])
  show "currentScoreRef s \<le> currentScoreRef s \<and> 10 dvd (currentScoreRef s - currentScoreRef s) \<and>
        currentScoreRef s + 10 * int (unpassed s) \<le> currentScoreRef s + 10 * int (unpassed s)"
    by simp
next
  fix k and t :: TRexGame
  assume inv: "currentScoreRef s \<le> currentScoreRef t \<and>
               10 dvd (currentScoreRef t - currentScoreRef s) \<and>
               currentScoreRef t + 10 * int (unpassed t) \<le> currentScoreRef s + 10 * int (unpassed s)"
    and k: "k < length (obstacles (gameState t))"
  have dvd: "10 dvd (currentScoreRef t + 10 - currentScoreRef s)"
  proof -
    have "currentScoreRef t + 10 - currentScoreRef s = (currentScoreRef t - currentScoreRef s) + 10"
      by simp
    with inv show ?thesis by (metis dvd_add dvd_refl)
  qed
  from inv dvd unpassed_obstacleCallback [OF k]
  show "currentScoreRef s \<le> currentScoreRef (obstacleCallback k t) \<and>
        10 dvd (currentScoreRef (obstacleCallback k t) - currentScoreRef s) \<and>
        currentScoreRef (obstacleCallback k t) + 10 * int (unpassed (obstacleCallback k t))
          \<le> currentScoreRef s + 10 * int (unpassed s)"
    by (auto simp add: obstacleCallback_score split: if_splits)
qed

lemma updateGame_score:
  "\<exists>n. n \<le> unpassed (generateObstacles r st) \<and>
       currentScoreRef (updateGame r st) = currentScoreRef st + 10 * int n"
proof (cases "running st")
  case False
  then show ?thesis by (simp add: updateGame_stopped)
next
  case True
  let ?s = "generateObstacles r (moveGround (updatePlayer st))"
  let ?d = "currentScoreRef (forEachObstacle ?s) - currentScoreRef st"
  have u: "unpassed ?s = unpassed (generateObstacles r st)"
    by (simp add: unpassed_def generateObstacles_obstacles)
  from forEachObstacle_score [of ?s]
  have ge: "0 \<le> ?d" and dv: "10 dvd ?d"
    and le: "?d + 10 * int (unpassed (forEachObstacle ?s)) \<le> 10 * int (unpassed (generateObstacles r st))"
    by (simp_all add: u)
  from dv obtain m where m: "?d = 10 * m" by (auto simp add: dvd_def)
  with ge have m0: "0 \<le> m" by simp
  from le m have "m \<le> int (unpassed (generateObstacles r st))" by simp
  with m0 have "nat m \<le> unpassed (generateObstacles r st)" by simp
  moreover from m m0 True have "currentScoreRef (updateGame r st) = currentScoreRef st + 10 * int (nat m)"
    by (simp add: updateGame_running)
  ultimately show ?thesis by blast
qed

lemma callback_counts_flag:
  assumes "i < length (obstacles (gameState s))"
  shows "hasPassed i (moveObstacle i s) \<longleftrightarrow>
         (\<not> passed (obstacles (gameState s) ! i) \<and>
          passed (obstacles (gameState (scoreObstacle i (moveObstacle i s))) ! i))"
  using assms by (auto simp add: scoreObstacle_obstacles) (auto simp add: hasPassed_def Let_def)

text \<open>
  C8: one run of the loop callback adds exactly 10 to the score when the obstacle's
  \<open>passed\<close> flag goes from false to true in it, and nothing otherwise (so nothing for
  an obstacle already marked). One update step adds 10 times a number \<open>n\<close> that is at
  most the number of unmarked obstacles in the list, so each obstacle counts at most
  once and the score never goes down in a step; the jump command of a running game
  and the two effects leave the score alone; and in every state a session reaches the
  score is a non-negative multiple of 10.
\<close>

theorem score_counts_tens:
  "(i < length (obstacles (gameState s)) \<longrightarrow>
      currentScoreRef (obstacleCallback i s) =
        (if \<not> passed (obstacles (gameState s) ! i) \<and>
            passed (obstacles (gameState (scoreObstacle i (moveObstacle i s))) ! i)
         then currentScoreRef s + 10 else currentScoreRef s)) \<and>
   (\<exists>n. n \<le> unpassed (generateObstacles r st) \<and>
        currentScoreRef (updateGame r st) = currentScoreRef st + 10 * int n) \<and>
   currentScoreRef st \<le> currentScoreRef (updateGame r st) \<and>
   (running st \<longrightarrow> currentScoreRef (jump st) = currentScoreRef st) \<and>
   currentScoreRef (highScoreEffect st) = currentScoreRef st \<and>
   (reachable st \<longrightarrow> currentScoreRef (syncScore st) = currentScoreRef st \<and>
      0 \<le> currentScoreRef st \<and> 10 dvd currentScoreRef st)"
proof (intro conjI impI)
  assume "i < length (obstacles (gameState s))"
  then show "currentScoreRef (obstacleCallback i s) =
        (if \<not> passed (obstacles (gameState s) ! i) \<and>
            passed (obstacles (gameState (scoreObstacle i (moveObstacle i s))) ! i)
         then currentScoreRef s + 10 else currentScoreRef s)"
    by (simp only: obstacleCallback_score callback_counts_flag)
next
  show "\<exists>n. n \<le> unpassed (generateObstacles r st) \<and>
        currentScoreRef (updateGame r st) = currentScoreRef st + 10 * int n"
    by (rule updateGame_score)
next
  from updateGame_score [of r st]
  show "currentScoreRef st \<le> currentScoreRef (updateGame r st)" by auto
next
  assume "running st"
  then show "currentScoreRef (jump st) = currentScoreRef st"
    by (simp add: jump_def running_def)
next
  show "currentScoreRef (highScoreEffect st) = currentScoreRef st"
    by (simp add: highScoreEffect_def)
next
  assume "reachable st"
  then have "sessionInv st" by (rule reachable_sessionInv)
  then show "currentScoreRef (syncScore st) = currentScoreRef st"
    and "0 \<le> currentScoreRef st" and "10 dvd currentScoreRef st"
    by (simp_all add: sessionInv_def syncScore_def)
qed

theorem score_counts_tens_witness:
  "0 < length (obstacles (gameState doublePass)) \<and>
   currentScoreRef (obstacleCallback 0 doublePass) = currentScoreRef doublePass + 10 \<and>
   running scoredOnce \<and> reachable (updateGame (1 / 2) (jump (mount emptyStorage))) \<and>
   currentScoreRef scoredOnce = 10 \<and>
   currentScoreRef scoredOnce \<le> currentScoreRef (updateGame (1 / 2) scoredOnce) \<and>
   currentScoreRef (jump scoredOnce) = 10 \<and>
   10 dvd currentScoreRef (updateGame (1 / 2) (jump (mount emptyStorage)))"
proof -
  have l: "0 < length (obstacles (gameState doublePass))"
    by (simp add: doublePass_def session_defs)
  have p: "\<not> passed (obstacles (gameState doublePass) ! 0) \<and>
           passed (obstacles (gameState (scoreObstacle 0 (moveObstacle 0 doublePass))) ! 0)"
    by (simp add: doublePass_def session_defs update_defs)
  have r: "running scoredOnce" and c: "currentScoreRef scoredOnce = 10"
    by (simp_all add: scoredOnce_def session_defs update_defs upt_0_1)
  have re: "reachable (updateGame (1 / 2) (jump (mount emptyStorage)))"
    by (intro reachable.intros)
  from score_counts_tens [of 0 doublePass "1 / 2" scoredOnce] l p r c
    score_counts_tens [of 0 doublePass "1 / 2" "updateGame (1 / 2) (jump (mount emptyStorage))"] re
  show ?thesis by simp
qed

section \<open>The difficulty curve\<close>

text \<open>
  C7: a running update step leaves a score \<open>S\<close> that is the score before it plus the
  tens counted in the step (it is never reset), and stores the game speed
  \<open>min (1.5 + S * 0.0008) 6.0\<close> and the spawn rate \<open>min (0.006 + S * 0.000008) 0.015\<close>
  of that score; both curves are non-decreasing in the score, stay at or below 6.0
  and 0.015, and at score 0 are 1.5 and 0.006.
\<close>

theorem difficulty_recomputed:
  "running st \<Longrightarrow> S = currentScoreRef (updateGame r st) \<Longrightarrow>
   currentScoreRef st \<le> S \<and>
   S \<le> currentScoreRef st + 10 * int (unpassed (generateObstacles r st)) \<and>
   gameSpeed (gameState (updateGame r st)) = min (1.5 + real_of_int S * 0.0008) 6.0 \<and>
   obstacleSpawnRate (gameState (updateGame r st)) = min (0.006 + real_of_int S * 0.000008) 0.015 \<and>
   (\<forall>a b. 0 \<le> a \<and> a \<le> b \<longrightarrow> newSpeed a \<le> newSpeed b \<and> newSpawnRate a \<le> newSpawnRate b) \<and>
   (\<forall>a. 0 \<le> a \<longrightarrow> newSpeed a \<le> 6.0 \<and> newSpawnRate a \<le> 0.015) \<and>
   newSpeed 0 = 1.5 \<and> newSpawnRate 0 = 0.006"
proof -
  assume run: "running st" and S: "S = currentScoreRef (updateGame r st)"
  from updateGame_score [of r st] obtain n
    where n: "n \<le> unpassed (generateObstacles r st)"
      and sc: "currentScoreRef (updateGame r st) = currentScoreRef st + 10 * int n"
    by blast
  from n sc S have bounds: "currentScoreRef st \<le> S"
    "S \<le> currentScoreRef st + 10 * int (unpassed (generateObstacles r st))"
    by simp_all
  from run S have stored:
    "gameSpeed (gameState (updateGame r st)) = min (1.5 + real_of_int S * 0.0008) 6.0"
    "obstacleSpawnRate (gameState (updateGame r st)) = min (0.006 + real_of_int S * 0.000008) 0.015"
    by (simp_all add: updateGame_running newSpeed_def newSpawnRate_def)
  have curves:
    "\<forall>a b. 0 \<le> a \<and> a \<le> b \<longrightarrow> newSpeed a \<le> newSpeed b \<and> newSpawnRate a \<le> newSpawnRate b"
    "\<forall>a. 0 \<le> a \<longrightarrow> newSpeed a \<le> 6.0 \<and> newSpawnRate a \<le> 0.015"
    "newSpeed 0 = 1.5" "newSpawnRate 0 = 0.006"
    by (simp_all add: newSpeed_def newSpawnRate_def min_def)
  from bounds stored curves show ?thesis by blast
qed

text \<open>
  At score 1000, speed 2.3 and spawn rate 0.014, a step that counts one obstacle leaves
  score 1010 and stores speed 2.308 and spawn rate 0.01408; at the winning score
  100000 the step stores the caps.
\<close>

theorem difficulty_recomputed_witness:
  "running midGame \<and> currentScoreRef midGame = 1000 \<and>
   gameSpeed (gameState midGame) = 2.3 \<and> obstacleSpawnRate (gameState midGame) = 0.014 \<and>
   unpassed (generateObstacles (1 / 2) midGame) = 1 \<and>
   currentScoreRef (updateGame (1 / 2) midGame) = 1010 \<and>
   \<not> gameOver (updateGame (1 / 2) midGame) \<and>
   gameSpeed (gameState (updateGame (1 / 2) midGame)) = 2.308 \<and>
   obstacleSpawnRate (gameState (updateGame (1 / 2) midGame)) = 0.01408 \<and>
   running (nearWin 13 (- 4)) \<and>
   currentScoreRef (updateGame (1 / 2) (nearWin 13 (- 4))) = 100000 \<and>
   gameSpeed (gameState (updateGame (1 / 2) (nearWin 13 (- 4)))) = 6 \<and>
   obstacleSpawnRate (gameState (updateGame (1 / 2) (nearWin 13 (- 4)))) = 0.015"
proof -
  have r: "running midGame" "currentScoreRef midGame = 1000"
    "gameSpeed (gameState midGame) = 2.3" "obstacleSpawnRate (gameState midGame) = 0.014"
    "unpassed (generateObstacles (1 / 2) midGame) = 1"
    by (simp_all add: midGame_def session_defs unpassed_def generateObstacles_def)
  have c: "currentScoreRef (updateGame (1 / 2) midGame) = 1010"
    "\<not> gameOver (updateGame (1 / 2) midGame)"
    by (simp_all add: midGame_def session_defs update_defs upt_0_1)
  from difficulty_recomputed [OF r(1) refl, of "1 / 2"] c(1)
  have m: "gameSpeed (gameState (updateGame (1 / 2) midGame)) = 2.308"
    "obstacleSpawnRate (gameState (updateGame (1 / 2) midGame)) = 0.01408"
    by simp_all
  have w: "running (nearWin 13 (- 4))"
    "currentScoreRef (updateGame (1 / 2) (nearWin 13 (- 4))) = 100000"
    by (simp_all add: nearWin_high)
  from difficulty_recomputed [OF w(1) refl, of "1 / 2"] w(2)
  have "gameSpeed (gameState (updateGame (1 / 2) (nearWin 13 (- 4)))) = 6"
    "obstacleSpawnRate (gameState (updateGame (1 / 2) (nearWin 13 (- 4)))) = 0.015"
    by simp_all
  with r c m w show ?thesis by simp
qed

section \<open>The spacing of obstacles\<close>

lemma movedObstacle_fields [simp]:
  "x (movedObstacle s c ob) = x ob - s"
  "y (movedObstacle s c ob) = y ob"
  "width (movedObstacle s c ob) = width ob"
  "height (movedObstacle s c ob) = height ob"
  "passed (movedObstacle s c ob) = (passed ob \<or> x ob - s + width ob < c)"
  by (auto simp add: movedObstacle_def)

lemma splice1_update: "splice1 k (xs[k := v]) = splice1 k xs"
  by (simp add: splice1_def)

lemma obstacleCallback_obstacles:
  assumes "k < length (obstacles (gameState t))"
  shows "obstacles (gameState (obstacleCallback k t)) =
         visitList (gameSpeed (gameState t)) (passLine t) k (obstacles (gameState t))"
proof -
  let ?obs = "obstacles (gameState t)"
  let ?m = "moveObstacle k t"
  let ?e1 = "(?obs ! k)\<lparr>x := x (?obs ! k) - gameSpeed (gameState t)\<rparr>"
  have m: "obstacles (gameState ?m) = ?obs[k := ?e1]"
    by (simp add: moveObstacle_def Let_def)
  have hp: "hasPassed k ?m \<longleftrightarrow>
            (\<not> passed (?obs ! k) \<and> x (?obs ! k) - gameSpeed (gameState t) + width (?obs ! k) < passLine t)"
    using assms by (simp add: hasPassed_def Let_def m passLine_def)
  have sc: "obstacles (gameState (scoreObstacle k ?m)) =
            ?obs[k := movedObstacle (gameSpeed (gameState t)) (passLine t) (?obs ! k)]"
    using assms by (simp add: scoreObstacle_obstacles m hp movedObstacle_def)
  show ?thesis
    using assms
    by (simp add: obstacleCallback_def removeObstacle_def Let_def sc visitList_def splice1_update)
qed

lemma visit_obstacles:
  "obstacles (gameState (visit k t)) =
   visitList (gameSpeed (gameState t)) (passLine t) k (obstacles (gameState t))"
  by (simp add: visit_def obstacleCallback_obstacles) (simp add: visitList_def)

lemma visit_frame [simp]:
  "gameSpeed (gameState (visit k t)) = gameSpeed (gameState t)"
  "player (gameState (visit k t)) = player (gameState t)"
  "passLine (visit k t) = passLine t"
  by (simp_all add: visit_def passLine_def)

lemma fold_visit_obstacles:
  "obstacles (gameState (fold visit ks t)) =
   fold (visitList (gameSpeed (gameState t)) (passLine t)) ks (obstacles (gameState t))"
  by (induction ks arbitrary: t) (simp_all add: visit_obstacles)

lemma loopTo_Suc: "loopTo (Suc k) st = visit k (loopTo k st)"
  by (simp add: loopTo_def)

lemma loopTo_0: "loopTo 0 st = st"
  by (simp add: loopTo_def)

lemma forEachObstacle_loopTo: "forEachObstacle st = loopTo (length (obstacles (gameState st))) st"
  by (simp add: forEachObstacle_def loopTo_def)

lemma visitList_beyond: "length xs \<le> k \<Longrightarrow> visitList s c k xs = xs"
  by (simp add: visitList_def)

lemma length_visitList: "length (visitList s c k xs) \<le> length xs"
  by (simp add: visitList_def splice1_def)

lemma fold_visitList_beyond: "length xs \<le> j \<Longrightarrow> fold (visitList s c) [j..<k] xs = xs"
proof (induction k)
  case 0
  show ?case by simp
next
  case (Suc k)
  show ?case
  proof (cases "j \<le> k")
    case True
    with Suc show ?thesis by (simp add: visitList_beyond)
  next
    case False
    then show ?thesis by simp
  qed
qed

lemma fold_visitList_keep:
  assumes "j \<le> k" and "k \<le> length xs"
    and "\<forall>i. j \<le> i \<and> i < k \<longrightarrow>
           \<not> x (movedObstacle s c (xs ! i)) + width (movedObstacle s c (xs ! i)) < 0"
  shows "fold (visitList s c) [j..<k] xs =
         take j xs @ map (movedObstacle s c) (take (k - j) (drop j xs)) @ drop k xs"
  using assms
proof (induction k)
  case 0
  then show ?case by simp
next
  case (Suc k)
  show ?case
  proof (cases "j = Suc k")
    case True
    then show ?thesis by simp
  next
    case False
    with Suc.prems have jk: "j \<le> k" and kl: "k < length xs" by simp_all
    let ?A = "take j xs @ map (movedObstacle s c) (take (k - j) (drop j xs))"
    have ih: "fold (visitList s c) [j..<k] xs = ?A @ drop k xs"
      using Suc.IH jk kl Suc.prems(3) by simp
    have lenA: "length ?A = k" using jk kl by simp
    have dk: "drop k xs = xs ! k # drop (Suc k) xs"
      using kl by (simp add: Cons_nth_drop_Suc)
    have nth: "(?A @ drop k xs) ! k = xs ! k"
      using lenA dk by (metis nth_append_length)
    have keep: "\<not> x (movedObstacle s c (xs ! k)) + width (movedObstacle s c (xs ! k)) < 0"
      using Suc.prems(3) jk by simp
    have len: "k < length (?A @ drop k xs)" using lenA kl by simp
    have upd: "(?A @ drop k xs)[k := movedObstacle s c (xs ! k)] =
               ?A @ (movedObstacle s c (xs ! k) # drop (Suc k) xs)"
      using lenA dk by (metis list_update_length)
    have tk: "take (Suc k - j) (drop j xs) = take (k - j) (drop j xs) @ [xs ! k]"
    proof -
      have "Suc k - j = Suc (k - j)" using jk by simp
      moreover have "k - j < length (drop j xs)" using jk kl by simp
      moreover have "drop j xs ! (k - j) = xs ! k" using jk kl by simp
      ultimately show ?thesis by (simp add: take_Suc_conv_app_nth)
    qed
    have "fold (visitList s c) [j..<Suc k] xs = visitList s c k (?A @ drop k xs)"
      using jk ih by simp
    also have "\<dots> = ?A @ (movedObstacle s c (xs ! k) # drop (Suc k) xs)"
      using len keep nth upd by (simp add: visitList_def)
    also have "\<dots> = take j xs @ map (movedObstacle s c) (take (Suc k - j) (drop j xs)) @ drop (Suc k) xs"
      by (simp add: tk)
    finally show ?thesis .
  qed
qed

text \<open>No obstacle leaves the field: the loop moves every obstacle.\<close>

lemma loop_all_kept:
  assumes "\<forall>e \<in> set xs. \<not> x (movedObstacle s c e) + width (movedObstacle s c e) < 0"
  shows "fold (visitList s c) [0..<length xs] xs = map (movedObstacle s c) xs"
  using fold_visitList_keep [of 0 "length xs" xs s c] assms by simp

text \<open>The first obstacle leaves the field and no other: the second one is passed over.\<close>

lemma loop_first_removed:
  assumes "x (movedObstacle s c e0) + width (movedObstacle s c e0) < 0"
    and "\<forall>e \<in> set ys. \<not> x (movedObstacle s c e) + width (movedObstacle s c e) < 0"
  shows "fold (visitList s c) [0..<length (e0 # ys)] (e0 # ys) =
         (case ys of [] \<Rightarrow> [] | e1 # zs \<Rightarrow> e1 # map (movedObstacle s c) zs)"
proof -
  have first: "visitList s c 0 (e0 # ys) = ys"
    using assms(1) by (simp add: visitList_def splice1_def)
  have "[0..<length (e0 # ys)] = 0 # [1..<Suc (length ys)]"
    by (simp add: upt_rec)
  then have start: "fold (visitList s c) [0..<length (e0 # ys)] (e0 # ys) =
                    fold (visitList s c) [1..<Suc (length ys)] ys"
    using first by simp
  show ?thesis
  proof (cases ys)
    case Nil
    with start show ?thesis by simp
  next
    case (Cons e1 zs)
    have keep: "\<forall>i. 1 \<le> i \<and> i < length ys \<longrightarrow>
                  \<not> x (movedObstacle s c (ys ! i)) + width (movedObstacle s c (ys ! i)) < 0"
      using assms(2) by simp
    have "fold (visitList s c) [1..<length ys] ys =
          take 1 ys @ map (movedObstacle s c) (take (length ys - 1) (drop 1 ys)) @ drop (length ys) ys"
      using Cons by (intro fold_visitList_keep keep) simp_all
    then have inner: "fold (visitList s c) [1..<length ys] ys = e1 # map (movedObstacle s c) zs"
      using Cons by simp
    have "[1..<Suc (length ys)] = [1..<length ys] @ [length ys]"
      using Cons by simp
    then have "fold (visitList s c) [1..<Suc (length ys)] ys =
               visitList s c (length ys) (e1 # map (movedObstacle s c) zs)"
      using inner by simp
    also have "\<dots> = e1 # map (movedObstacle s c) zs"
      using Cons by (simp add: visitList_beyond)
    finally show ?thesis using start Cons by simp
  qed
qed

lemma drop_visitList:
  assumes "k < length cur"
  shows "drop (Suc k) (visitList s c k cur) =
         (if x (movedObstacle s c (cur ! k)) + width (movedObstacle s c (cur ! k)) < 0
          then drop (Suc (Suc k)) cur else drop (Suc k) cur)"
  using assms by (simp add: visitList_def splice1_def)

lemma gappedBy_Nil [simp]: "gappedBy g0 g []"
  by (simp add: gappedBy_def)

lemma gappedBy_weaken: "gappedBy g0 g obs \<Longrightarrow> h0 \<le> g0 \<Longrightarrow> h \<le> g \<Longrightarrow> gappedBy h0 h obs"
  by (fastforce simp add: gappedBy_def)

lemma gappedBy_tl: "gappedBy g0 g (e # ys) \<Longrightarrow> gappedBy g g ys"
proof -
  assume a: "gappedBy g0 g (e # ys)"
  show "gappedBy g g ys"
    unfolding gappedBy_def
  proof (intro allI impI)
    fix a b assume "a < b \<and> b < length ys"
    then have "Suc a < Suc b \<and> Suc b < length (e # ys)" by simp
    with a have "x ((e # ys) ! Suc a) + (if Suc a = 0 then g0 else g) \<le> x ((e # ys) ! Suc b)"
      unfolding gappedBy_def by blast
    then show "x (ys ! a) + (if a = 0 then g else g) \<le> x (ys ! b)" by simp
  qed
qed

lemma gappedBy_hd:
  "gappedBy g0 g (e # ys) \<Longrightarrow> d \<in> set ys \<Longrightarrow> x e + g0 \<le> x d"
proof -
  assume a: "gappedBy g0 g (e # ys)" and d: "d \<in> set ys"
  from d obtain i where i: "i < length ys" "ys ! i = d" by (auto simp add: in_set_conv_nth)
  then have "0 < Suc i \<and> Suc i < length (e # ys)" by simp
  with a have "x ((e # ys) ! 0) + (if (0::nat) = 0 then g0 else g) \<le> x ((e # ys) ! Suc i)"
    unfolding gappedBy_def by blast
  with i show ?thesis by simp
qed

lemma gappedBy_last:
  assumes "gappedBy g0 g obs" "0 \<le> g0" "0 \<le> g" "e \<in> set obs"
  shows "x e \<le> x (last obs)"
proof -
  from assms(4) obtain i where i: "i < length obs" "obs ! i = e" by (auto simp add: in_set_conv_nth)
  then have ne: "obs \<noteq> []" by auto
  show ?thesis
  proof (cases "i = length obs - 1")
    case True
    with i ne show ?thesis by (simp add: last_conv_nth)
  next
    case False
    with i have "i < length obs - 1 \<and> length obs - 1 < length obs" by arith
    with assms(1) have "x (obs ! i) + (if i = 0 then g0 else g) \<le> x (obs ! (length obs - 1))"
      unfolding gappedBy_def by blast
    with i ne assms(2,3) show ?thesis by (simp add: last_conv_nth split: if_splits)
  qed
qed

lemma gappedBy_map_moved:
  "gappedBy g0 g obs \<Longrightarrow> gappedBy g0 g (map (movedObstacle s c) obs)"
  by (simp add: gappedBy_def)

lemma gappedBy_skipped:
  assumes "gappedBy g g (e1 # zs)" and "s \<le> 6" and "g0 + 6 \<le> g"
  shows "gappedBy g0 g (e1 # map (movedObstacle s c) zs)"
  unfolding gappedBy_def
proof (intro allI impI)
  fix a b assume ab: "a < b \<and> b < length (e1 # map (movedObstacle s c) zs)"
  then obtain b' where b': "b = Suc b'" "b' < length zs" by (cases b) auto
  from ab b' have "a < Suc b' \<and> Suc b' < length (e1 # zs)" by simp
  with assms(1) have g: "x ((e1 # zs) ! a) + g \<le> x (zs ! b')"
    unfolding gappedBy_def by fastforce
  show "x ((e1 # map (movedObstacle s c) zs) ! a) + (if a = 0 then g0 else g)
        \<le> x ((e1 # map (movedObstacle s c) zs) ! b)"
  proof (cases a)
    case 0
    with g b' assms(2,3) show ?thesis by simp
  next
    case (Suc a')
    with ab b' have "a' < length zs" by simp
    with g b' Suc show ?thesis by simp
  qed
qed

lemma gappedBy_snoc:
  assumes "gappedBy g0 g obs" and "\<forall>e \<in> set obs. x e + max g0 g \<le> x new"
  shows "gappedBy g0 g (obs @ [new])"
  unfolding gappedBy_def
proof (intro allI impI)
  fix a b assume ab: "a < b \<and> b < length (obs @ [new])"
  show "x ((obs @ [new]) ! a) + (if a = 0 then g0 else g) \<le> x ((obs @ [new]) ! b)"
  proof (cases "b < length obs")
    case True
    with ab assms(1) show ?thesis by (simp add: gappedBy_def nth_append)
  next
    case False
    with ab have b: "b = length obs" and a: "a < length obs" by simp_all
    from a have "obs ! a \<in> set obs" by simp
    with assms(2) have "x (obs ! a) + max g0 g \<le> x new" by blast
    then have "x (obs ! a) + g0 \<le> x new" "x (obs ! a) + g \<le> x new" by simp_all
    with a b show ?thesis by (auto simp add: nth_append)
  qed
qed

lemma wellFormed_moved:
  assumes "width e = 18" and "\<not> x (movedObstacle s 400 e) + width (movedObstacle s 400 e) < 0"
  shows "width (movedObstacle s 400 e) = 18 \<and> 0 \<le> x (movedObstacle s 400 e) + 18 \<and>
         (\<not> passed (movedObstacle s 400 e) \<longrightarrow> 382 \<le> x (movedObstacle s 400 e))"
  using assms by auto

text \<open>One run of the loop over a well-spaced list leaves a well-spaced list.\<close>

lemma loop_keeps_spacing:
  assumes wf: "wellFormed obs" and gp: "gappedBy (767 / 2) (779 / 2) obs"
    and s: "0 \<le> s" "s \<le> 6"
    and sl: "slackOk (L + s) obs"
  defines "res \<equiv> fold (visitList s 400) [0..<length obs] obs"
  shows "wellFormed res \<and> gappedBy (767 / 2) (779 / 2) res \<and> slackOk L res"
proof (cases obs)
  case Nil
  then show ?thesis by (simp add: res_def wellFormed_def slackOk_def)
next
  case (Cons e0 ys)
  have gy: "gappedBy (779 / 2) (779 / 2) ys"
    using gp Cons gappedBy_tl by blast
  have far: "\<forall>d \<in> set ys. x e0 + 767 / 2 \<le> x d"
    using gp Cons gappedBy_hd by blast
  have wf0: "width e0 = 18" "0 \<le> x e0 + 18"
    using wf Cons by (simp_all add: wellFormed_def)
  have wfy: "\<forall>d \<in> set ys. width d = 18 \<and> 0 \<le> x d + 18 \<and> (\<not> passed d \<longrightarrow> 382 \<le> x d)"
    using wf Cons by (simp add: wellFormed_def)
  have keepy: "\<forall>d \<in> set ys. \<not> x (movedObstacle s 400 d) + width (movedObstacle s 400 d) < 0"
  proof
    fix d assume d: "d \<in> set ys"
    with far wfy wf0 s show "\<not> x (movedObstacle s 400 d) + width (movedObstacle s 400 d) < 0"
      by fastforce
  qed
  show ?thesis
  proof (cases "x (movedObstacle s 400 e0) + width (movedObstacle s 400 e0) < 0")
    case False
    with keepy Cons have all: "\<forall>e \<in> set obs. \<not> x (movedObstacle s 400 e) + width (movedObstacle s 400 e) < 0"
      by simp
    then have res: "res = map (movedObstacle s 400) obs"
      unfolding res_def by (rule loop_all_kept)
    have 1: "wellFormed res"
      unfolding res wellFormed_def
    proof
      fix d assume "d \<in> set (map (movedObstacle s 400) obs)"
      then obtain e where e: "e \<in> set obs" "d = movedObstacle s 400 e" by auto
      with wf have "width e = 18" by (simp add: wellFormed_def)
      with e all wellFormed_moved [of e s]
      show "width d = 18 \<and> 0 \<le> x d + 18 \<and> (\<not> passed d \<longrightarrow> 382 \<le> x d)" by blast
    qed
    have 2: "gappedBy (767 / 2) (779 / 2) res"
      unfolding res using gp by (rule gappedBy_map_moved)
    have 3: "slackOk L res"
      using sl Cons unfolding res slackOk_def by (auto simp add: last_map)
    from 1 2 3 show ?thesis by blast
  next
    case True
    then have res: "res = (case ys of [] \<Rightarrow> [] | e1 # zs \<Rightarrow> e1 # map (movedObstacle s 400) zs)"
      unfolding res_def Cons using keepy by (rule loop_first_removed)
    show ?thesis
    proof (cases ys)
      case Nil
      with res show ?thesis by (simp add: wellFormed_def slackOk_def)
    next
      case (Cons e1 zs)
      with res have res': "res = e1 # map (movedObstacle s 400) zs" by simp
      have 1: "wellFormed res"
        unfolding res' wellFormed_def
      proof
        fix d assume "d \<in> set (e1 # map (movedObstacle s 400) zs)"
        then consider "d = e1" | e where "e \<in> set zs" "d = movedObstacle s 400 e" by auto
        then show "width d = 18 \<and> 0 \<le> x d + 18 \<and> (\<not> passed d \<longrightarrow> 382 \<le> x d)"
        proof cases
          case 1
          with wfy Cons show ?thesis by simp
        next
          case 2
          with Cons have "e \<in> set ys" by simp
          with wfy keepy have "width e = 18"
            "\<not> x (movedObstacle s 400 e) + width (movedObstacle s 400 e) < 0" by simp_all
          with 2 wellFormed_moved [of e s] show ?thesis by blast
        qed
      qed
      have 2: "gappedBy (767 / 2) (779 / 2) res"
        unfolding res' using gy Cons s by (intro gappedBy_skipped) simp_all
      have 3: "slackOk L res"
      proof (cases zs)
        case Nil
        with sl \<open>obs = e0 # ys\<close> Cons s show ?thesis
          unfolding res' slackOk_def by auto
      next
        case (Cons z zs')
        with sl \<open>obs = e0 # ys\<close> \<open>ys = e1 # zs\<close> show ?thesis
          unfolding res' slackOk_def by (auto simp add: last_map)
      qed
      from 1 2 3 show ?thesis by blast
    qed
  qed
qed

lemma obstacleCallback_lastObstacleX [simp]:
  "lastObstacleX (gameState (obstacleCallback k t)) = lastObstacleX (gameState t)"
  by (simp add: obstacleCallback_def removeObstacle_def collideObstacle_def scoreObstacle_def
        winCheck_def checkThemeChange_def moveObstacle_def setObstacles_def Let_def)

lemma forEachObstacle_lastObstacleX:
  "lastObstacleX (gameState (forEachObstacle s)) = lastObstacleX (gameState s)"
  by (rule forEachObstacle_invariant
        [where P = "\<lambda>t. lastObstacleX (gameState t) = lastObstacleX (gameState s)"]) simp_all

lemma forEachObstacle_obstacles:
  "obstacles (gameState (forEachObstacle s)) =
   fold (visitList (gameSpeed (gameState s)) (passLine s))
     [0..<length (obstacles (gameState s))] (obstacles (gameState s))"
  by (simp add: forEachObstacle_def fold_visit_obstacles)

lemma forEachObstacle_gameSpeed:
  "gameSpeed (gameState (forEachObstacle s)) = gameSpeed (gameState s)"
  by (rule forEachObstacle_invariant
        [where P = "\<lambda>t. gameSpeed (gameState t) = gameSpeed (gameState s)"]) simp_all

lemma updatePlayer_box [simp]:
  "x (player (gameState (updatePlayer s))) = x (player (gameState s))"
  "width (player (gameState (updatePlayer s))) = width (player (gameState s))"
  by (simp_all add: updatePlayer_def Let_def)

lemma newSpeed_range: "0 \<le> sc \<Longrightarrow> 3 / 2 \<le> newSpeed sc \<and> newSpeed sc \<le> 6"
  by (simp add: newSpeed_def min_def)

lemma spaced_generateObstacles:
  assumes "spaced st"
  shows "spaced (generateObstacles r (moveGround (updatePlayer st)))"
proof (cases "r < obstacleSpawnRate (gameState st) \<and> BASE_WIDTH - lastObstacleX (gameState st) > 400")
  case False
  then have "gameState (generateObstacles r (moveGround (updatePlayer st))) =
             gameState (moveGround (updatePlayer st))"
    by (simp add: generateObstacles_def Let_def)
  with assms show ?thesis by (simp add: spaced_def)
next
  case True
  let ?obs = "obstacles (gameState st)"
  let ?new = "\<lparr> x = BASE_WIDTH, y = 175, width = 18, height = 25, passed = False \<rparr>"
  let ?p = "generateObstacles r (moveGround (updatePlayer st))"
  from True have obs: "obstacles (gameState ?p) = ?obs @ [?new]"
    and last: "lastObstacleX (gameState ?p) = 800"
    by (simp_all add: generateObstacles_def Let_def BASE_WIDTH_def)
  from True have L: "lastObstacleX (gameState st) < 400" by (simp add: BASE_WIDTH_def)
  from assms have wf: "wellFormed ?obs" and gp: "gappedBy (767 / 2) (779 / 2) ?obs"
    and sl: "slackOk (lastObstacleX (gameState st) + gameSpeed (gameState st)) ?obs"
    and sp: "3 / 2 \<le> gameSpeed (gameState st)" "gameSpeed (gameState st) \<le> 6"
    by (simp_all add: spaced_def)
  have left: "\<forall>e \<in> set ?obs. x e + max (767 / 2) (779 / 2) \<le> x ?new"
  proof
    fix e assume e: "e \<in> set ?obs"
    then have ne: "?obs \<noteq> []" by auto
    from gappedBy_last [OF gp _ _ e] have "x e \<le> x (last ?obs)" by simp
    moreover from sl ne have "x (last ?obs) \<le> lastObstacleX (gameState st) + gameSpeed (gameState st) + 9 / 2"
      by (simp add: slackOk_def split: if_splits)
    ultimately show "x e + max (767 / 2) (779 / 2) \<le> x ?new"
      using L sp by (simp add: BASE_WIDTH_def)
  qed
  have 1: "wellFormed (?obs @ [?new])"
    using wf by (simp add: wellFormed_def BASE_WIDTH_def)
  have 2: "gappedBy (767 / 2) (779 / 2) (?obs @ [?new])"
    using gp left by (rule gappedBy_snoc)
  have 3: "slackOk (800 + gameSpeed (gameState st)) (?obs @ [?new])"
    using sp by (simp add: slackOk_def BASE_WIDTH_def)
  from assms 1 2 3 show ?thesis
    by (simp add: spaced_def obs last)
qed

lemma spaced_passLine: "spaced st \<Longrightarrow> passLine st = 400"
  by (simp add: spaced_def passLine_def)

lemma spaced_updateGame:
  assumes "spaced st" and "0 \<le> currentScoreRef st"
  shows "spaced (updateGame r st)"
proof (cases "running st")
  case False
  with assms show ?thesis by (simp add: updateGame_stopped)
next
  case True
  let ?p = "generateObstacles r (moveGround (updatePlayer st))"
  let ?f = "forEachObstacle ?p"
  have p: "spaced ?p" using assms(1) by (rule spaced_generateObstacles)
  then have wf: "wellFormed (obstacles (gameState ?p))"
    and gp: "gappedBy (767 / 2) (779 / 2) (obstacles (gameState ?p))"
    and sl: "slackOk (lastObstacleX (gameState ?p) + gameSpeed (gameState ?p)) (obstacles (gameState ?p))"
    and sp: "0 \<le> gameSpeed (gameState ?p)" "gameSpeed (gameState ?p) \<le> 6"
    by (simp_all add: spaced_def)
  have res: "obstacles (gameState ?f) =
             fold (visitList (gameSpeed (gameState ?p)) 400)
               [0..<length (obstacles (gameState ?p))] (obstacles (gameState ?p))"
    using spaced_passLine [OF p] by (simp add: forEachObstacle_obstacles)
  from loop_keeps_spacing [OF wf gp sp sl]
  have keep: "wellFormed (obstacles (gameState ?f))"
    "gappedBy (767 / 2) (779 / 2) (obstacles (gameState ?f))"
    "slackOk (lastObstacleX (gameState ?p)) (obstacles (gameState ?f))"
    unfolding res by simp_all
  from updateGame_score [of r st] assms(2) True
  have "0 \<le> currentScoreRef ?f" by (auto simp add: updateGame_running)
  then have range: "3 / 2 \<le> newSpeed (currentScoreRef ?f)" "newSpeed (currentScoreRef ?f) \<le> 6"
    using newSpeed_range by simp_all
  have pl: "x (player (gameState ?f)) = 380" "width (player (gameState ?f)) = 40"
    using p forEachObstacle_frame [of ?p] by (simp_all add: spaced_def)
  have "spaced (updateDifficulty ?f)"
    using keep range pl
    by (simp add: spaced_def updateDifficulty_def Let_def forEachObstacle_lastObstacleX)
  with True show ?thesis by (simp add: updateGame_running)
qed

lemma reachable_spaced: "reachable s \<Longrightarrow> spaced s"
proof (induction rule: reachable.induct)
  case (reach_mount store)
  show ?case
    by (simp add: spaced_def mount_def loadHighScore_def initialSession_def initialGameState_def
          PLAYER_X_POS_def BASE_WIDTH_def wellFormed_def slackOk_def split: option.splits)
next
  case (reach_jump st)
  then show ?case
    by (simp add: spaced_def jump_def resetGame_def initialGameState_def
          PLAYER_X_POS_def BASE_WIDTH_def wellFormed_def slackOk_def)
next
  case (reach_update st random)
  from reach_update.hyps have "sessionInv st" by (rule reachable_sessionInv)
  then have "0 \<le> currentScoreRef st" by (simp add: sessionInv_def)
  with reach_update.IH show ?case by (rule spaced_updateGame)
next
  case (reach_render st)
  then show ?case by (simp add: spaced_def render_def Let_def)
next
  case (reach_highScore st)
  then show ?case by (simp add: spaced_def highScoreEffect_def)
next
  case (reach_sync st)
  then show ?case by (simp add: spaced_def syncScore_def)
qed




lemma gappedBy_Cons:
  "gappedBy g0 g (a # ys) \<longleftrightarrow> (\<forall>d \<in> set ys. x a + g0 \<le> x d) \<and> gappedBy g g ys"
proof
  assume h: "gappedBy g0 g (a # ys)"
  from h have "\<forall>d \<in> set ys. x a + g0 \<le> x d" using gappedBy_hd by blast
  moreover from h have "gappedBy g g ys" by (rule gappedBy_tl)
  ultimately show "(\<forall>d \<in> set ys. x a + g0 \<le> x d) \<and> gappedBy g g ys" by blast
next
  assume h: "(\<forall>d \<in> set ys. x a + g0 \<le> x d) \<and> gappedBy g g ys"
  show "gappedBy g0 g (a # ys)"
    unfolding gappedBy_def
  proof (intro allI impI)
    fix i j assume ij: "i < j \<and> j < length (a # ys)"
    then obtain j' where j': "j = Suc j'" "j' < length ys" by (cases j) auto
    show "x ((a # ys) ! i) + (if i = 0 then g0 else g) \<le> x ((a # ys) ! j)"
    proof (cases i)
      case 0
      from j' have "ys ! j' \<in> set ys" by simp
      with h 0 j' show ?thesis by simp
    next
      case (Suc i')
      with ij j' have "i' < j' \<and> j' < length ys" by simp
      with h have "x (ys ! i') + (if i' = 0 then g else g) \<le> x (ys ! j')"
        unfolding gappedBy_def by blast
      with Suc j' show ?thesis by simp
    qed
  qed
qed

lemma gappedBy_one [simp]: "gappedBy g0 g [a]"
  by (simp add: gappedBy_Cons)

lemma gappedBy_two [simp]: "gappedBy g0 g [a, b] \<longleftrightarrow> x a + g0 \<le> x b"
  by (simp add: gappedBy_Cons)


lemma hasPassed_moveObstacle:
  assumes "k < length (obstacles (gameState t))"
  shows "hasPassed k (moveObstacle k t) \<longleftrightarrow>
         (\<not> passed (obstacles (gameState t) ! k) \<and>
          x (obstacles (gameState t) ! k) - gameSpeed (gameState t) + width (obstacles (gameState t) ! k)
            < passLine t)"
  using assms by (simp add: hasPassed_def Let_def moveObstacle_def passLine_def)

lemma visit_score:
  assumes "k < length (obstacles (gameState t))"
  shows "currentScoreRef (visit k t) =
         (if \<not> passed (obstacles (gameState t) ! k) \<and>
             x (obstacles (gameState t) ! k) - gameSpeed (gameState t) + width (obstacles (gameState t) ! k)
               < passLine t
          then currentScoreRef t + 10 else currentScoreRef t)"
  using assms by (simp add: visit_def obstacleCallback_score hasPassed_moveObstacle)

lemma visit_gameOver:
  assumes "k < length (obstacles (gameState t))"
  shows "gameOver (visit k t) =
         (gameOver t \<or>
          checkCollision (player (gameState t))
            (movedObstacle (gameSpeed (gameState t)) (passLine t) (obstacles (gameState t) ! k)))"
proof -
  let ?obs = "obstacles (gameState t)"
  let ?m = "moveObstacle k t"
  have m: "obstacles (gameState ?m) = ?obs[k := (?obs ! k)\<lparr>x := x (?obs ! k) - gameSpeed (gameState t)\<rparr>]"
    by (simp add: moveObstacle_def Let_def)
  have sc: "obstacles (gameState (scoreObstacle k ?m)) ! k =
            movedObstacle (gameSpeed (gameState t)) (passLine t) (?obs ! k)"
    using assms
    by (simp add: scoreObstacle_obstacles m hasPassed_moveObstacle movedObstacle_def)
  show ?thesis
    using assms by (simp add: visit_def obstacleCallback_def collideObstacle_def sc)
qed

lemma visit_beyond: "length (obstacles (gameState t)) \<le> k \<Longrightarrow> visit k t = t"
  by (simp add: visit_def)

lemma wellFormed_drop: "wellFormed xs \<Longrightarrow> wellFormed (drop m xs)"
  unfolding wellFormed_def using set_drop_subset [of m xs] by blast

lemma gappedBy_drop: "gappedBy g g xs \<Longrightarrow> gappedBy g g (drop m xs)"
  unfolding gappedBy_def
proof (intro allI impI)
  fix a b
  assume g: "\<forall>a b. a < b \<and> b < length xs \<longrightarrow> x (xs ! a) + (if a = 0 then g else g) \<le> x (xs ! b)"
    and ab: "a < b \<and> b < length (drop m xs)"
  then have "m + a < m + b \<and> m + b < length xs" by auto
  with g have "x (xs ! (m + a)) + g \<le> x (xs ! (m + b))" by (metis (full_types))
  then have "x (xs ! (m + a)) + g \<le> x (xs ! (m + b))" .
  moreover from ab have "m \<le> length xs" by (cases "m \<le> length xs") simp_all
  ultimately show "x (drop m xs ! a) + (if a = 0 then g else g) \<le> x (drop m xs ! b)"
    by (simp add: nth_drop)
qed

lemma aheadOk_visit:
  assumes ok: "aheadOk sc0 k t"
  shows "aheadOk sc0 (Suc k) (visit k t) \<and>
         (currentScoreRef t \<noteq> sc0 \<longrightarrow>
            currentScoreRef (visit k t) = currentScoreRef t \<and> gameOver (visit k t) = gameOver t)"
proof (cases "k < length (obstacles (gameState t))")
  case False
  then have v: "visit k t = t" by (simp add: visit_beyond)
  from False have "drop (Suc k) (obstacles (gameState t)) = []" by simp
  with ok show ?thesis by (simp add: v aheadOk_def wellFormed_def)
next
  case True
  let ?obs = "obstacles (gameState t)"
  let ?s = "gameSpeed (gameState t)"
  let ?e = "?obs ! k"
  from ok have pl: "x (player (gameState t)) = 380" "width (player (gameState t)) = 40"
    and s: "0 \<le> ?s" "?s \<le> 6"
    and wf: "wellFormed (drop k ?obs)" and gp: "gappedBy (767 / 2) (767 / 2) (drop k ?obs)"
    and sc: "sc0 \<le> currentScoreRef t" "currentScoreRef t \<le> sc0 + 10"
    and far: "currentScoreRef t \<noteq> sc0 \<longrightarrow> (\<forall>e \<in> set (drop k ?obs). 765 \<le> x e)"
    by (simp_all add: aheadOk_def)
  have c: "passLine t = 400" using pl by (simp add: passLine_def)
  have dk: "drop k ?obs = ?e # drop (Suc k) ?obs"
    using True by (simp add: Cons_nth_drop_Suc)
  then have ein: "?e \<in> set (drop k ?obs)" by simp
  with wf have we: "width ?e = 18" "\<not> passed ?e \<longrightarrow> 382 \<le> x ?e"
    by (simp_all add: wellFormed_def)
  have rest: "\<forall>d \<in> set (drop (Suc k) ?obs). x ?e + 767 / 2 \<le> x d"
    using gp dk gappedBy_hd by metis
  let ?rest' = "drop (Suc k) (obstacles (gameState (visit k t)))"
  have shape: "?rest' = drop (Suc (Suc k)) ?obs \<or> ?rest' = drop (Suc k) ?obs"
    using True by (simp add: visit_obstacles drop_visitList)
  have sub: "set ?rest' \<subseteq> set (drop (Suc k) ?obs)"
  proof -
    have "set (drop (Suc (Suc k)) ?obs) \<subseteq> set (drop (Suc k) ?obs)"
      by (metis drop_Suc set_drop_subset tl_drop drop_drop plus_1_eq_Suc)
    with shape show ?thesis by auto
  qed
  have wf': "wellFormed ?rest'"
  proof -
    have "wellFormed (drop 1 (drop k ?obs))" "wellFormed (drop 2 (drop k ?obs))"
      using wf by (rule wellFormed_drop)+
    with shape show ?thesis by auto
  qed
  have gp': "gappedBy (767 / 2) (767 / 2) ?rest'"
  proof -
    have "gappedBy (767 / 2) (767 / 2) (drop 1 (drop k ?obs))"
      "gappedBy (767 / 2) (767 / 2) (drop 2 (drop k ?obs))"
      using gp by (rule gappedBy_drop)+
    with shape show ?thesis by auto
  qed
  have score': "currentScoreRef (visit k t) =
      (if \<not> passed ?e \<and> x ?e - ?s + 18 < 400 then currentScoreRef t + 10 else currentScoreRef t)"
    using True by (simp add: visit_score c we)
  have over': "gameOver (visit k t) = (gameOver t \<or> checkCollision (player (gameState t)) (movedObstacle ?s 400 ?e))"
    using True by (simp add: visit_gameOver c)
  show ?thesis
  proof (cases "currentScoreRef t = sc0")
    case changed: False
    with far ein have "765 \<le> x ?e" by blast
    with s have nopass: "\<not> x ?e - ?s + 18 < 400" and nohit: "\<not> x (player (gameState t)) + width (player (gameState t)) > x ?e - ?s"
      using pl by simp_all
    from nopass score' have 1: "currentScoreRef (visit k t) = currentScoreRef t" by simp
    from nohit over' have 2: "gameOver (visit k t) = gameOver t"
      by (simp add: checkCollision_def)
    have "set (drop (Suc k) ?obs) \<subseteq> set (drop k ?obs)"
      using dk by (metis set_subset_Cons)
    with far changed sub have "\<forall>e \<in> set ?rest'. 765 \<le> x e" by blast
    with 1 2 changed sc pl s wf' gp' show ?thesis
      by (simp add: aheadOk_def)
  next
    case same: True
    show ?thesis
    proof (cases "\<not> passed ?e \<and> x ?e - ?s + 18 < 400")
      case False
      with score' same have "currentScoreRef (visit k t) = sc0" by simp
      with same pl s wf' gp' show ?thesis by (simp add: aheadOk_def)
    next
      case True
      with score' same have 1: "currentScoreRef (visit k t) = sc0 + 10" by simp
      from True we have "382 \<le> x ?e" by simp
      with rest sub have "\<forall>e \<in> set ?rest'. 765 \<le> x e" by fastforce
      with 1 same pl s wf' gp' show ?thesis by (simp add: aheadOk_def)
    qed
  qed
qed

lemma loopTo_aheadOk: "aheadOk sc0 0 p \<Longrightarrow> aheadOk sc0 k (loopTo k p)"
proof (induction k)
  case 0
  then show ?case by (simp add: loopTo_0)
next
  case (Suc k)
  then have "aheadOk sc0 k (loopTo k p)" by simp
  from aheadOk_visit [OF this] show ?case by (simp add: loopTo_Suc)
qed

lemma loopTo_frozen:
  assumes ok: "aheadOk sc0 0 p" and ch: "currentScoreRef (loopTo i p) \<noteq> sc0" and le: "i \<le> j"
  shows "currentScoreRef (loopTo j p) = currentScoreRef (loopTo i p) \<and>
         gameOver (loopTo j p) = gameOver (loopTo i p)"
  using le
proof (induction j rule: dec_induct)
  case base
  show ?case by simp
next
  case (step j)
  from loopTo_aheadOk [OF ok, of j] have "aheadOk sc0 j (loopTo j p)" .
  from aheadOk_visit [OF this] step.IH ch show ?case by (simp add: loopTo_Suc)
qed

lemma spaced_aheadOk: "spaced p \<Longrightarrow> aheadOk (currentScoreRef p) 0 p"
  by (auto simp add: spaced_def aheadOk_def intro: gappedBy_weaken)

section \<open>The high score at the end of a run\<close>

text \<open>
  The branch of the effect that works: once the game is over with a score above the
  high score, the high score becomes that score, one \<open>setItem\<close> call writes it, and
  the run of the effect that the changed high score triggers does nothing more.
\<close>

lemma game_over_updates_high_score:
  assumes "gameOver st" and "exceeds (currentScoreRef st) (highScore st)"
  shows "highScore (highScoreEffect st) = Num (currentScoreRef st)"
    and "setItemLog (localStorage (highScoreEffect st)) =
           (utf16 ''trex-high-score'', toString (currentScoreRef st)) # setItemLog (localStorage st)"
    and "highScoreEffect (highScoreEffect st) = highScoreEffect st"
  using assms by (simp_all add: highScoreEffect_def setItem_def)

lemma low_score_keeps_high_score:
  "\<not> exceeds (currentScoreRef st) (highScore st) \<Longrightarrow> highScoreEffect st = st"
  by (simp add: highScoreEffect_def)

text \<open>
  C1: the claim asks for the high score to be updated and written on entering either
  terminal state. The effect only looks at \<open>gameOver\<close>: in a state that is won and not
  over it changes nothing, whatever the score, so a win without a collision neither
  updates the high score nor writes it.
\<close>

theorem win_skips_high_score:
  "gameWon st \<Longrightarrow> \<not> gameOver st \<Longrightarrow> highScoreEffect st = st"
  by (simp add: highScoreEffect_def)

text \<open>
  The run that shows it: high score 500, score 99990, the player high above the last
  cactus. The tick wins the game with score 100000 and no collision; after the effect
  the high score is still 500 and nothing has been written.
\<close>

theorem win_skips_high_score_witness:
  "running (nearWin 13 (- 4)) \<and>
   gameWon (updateGame (1 / 2) (nearWin 13 (- 4))) \<and>
   \<not> gameOver (updateGame (1 / 2) (nearWin 13 (- 4))) \<and>
   exceeds (currentScoreRef (updateGame (1 / 2) (nearWin 13 (- 4))))
           (highScore (updateGame (1 / 2) (nearWin 13 (- 4)))) \<and>
   highScore (highScoreEffect (updateGame (1 / 2) (nearWin 13 (- 4)))) = Num 500 \<and>
   setItemLog (localStorage (highScoreEffect (updateGame (1 / 2) (nearWin 13 (- 4))))) = []"
proof -
  have w: "gameWon (updateGame (1 / 2) (nearWin 13 (- 4)))"
    and o: "\<not> gameOver (updateGame (1 / 2) (nearWin 13 (- 4)))"
    by (simp_all add: nearWin_high)
  from win_skips_high_score [OF w o] show ?thesis
    by (simp add: nearWin_high)
qed

section \<open>Winning\<close>

lemma forEachObstacle_won:
  "currentScoreRef (forEachObstacle s) = currentScoreRef s \<or>
   currentScoreRef (forEachObstacle s) < MAX_SCORE \<or> gameWon (forEachObstacle s)"
  by (rule forEachObstacle_invariant
        [where P = "\<lambda>t. currentScoreRef t = currentScoreRef s \<or> currentScoreRef t < MAX_SCORE \<or> gameWon t"])
     (auto simp add: obstacleCallback_score)

lemma nearWin_invariants: "spaced (nearWin h v) \<and> sessionInv (nearWin h v)"
  by (simp add: nearWin_def session_defs spaced_def sessionInv_def wellFormed_def slackOk_def)

text \<open>
  C2, as stated, fails: setting \<open>gameWon\<close> does not end the callback that sets it. With
  score 99990 and the player coming down on the cactus that is just passing the
  player's centre (a state that meets every invariant of a run), the callback counts
  the cactus, which sets \<open>gameWon\<close> with \<open>gameOver\<close> still false, and its next statement
  tests the same cactus for collision and sets \<open>gameOver\<close>: the tick ends with score
  100000, won and over.
\<close>

theorem collision_processed_after_win:
  "running (nearWin 134 9.2) \<and>
   gameWon (scoreObstacle 0 (moveObstacle 0
     (generateObstacles (1 / 2) (moveGround (updatePlayer (nearWin 134 9.2)))))) \<and>
   \<not> gameOver (scoreObstacle 0 (moveObstacle 0
     (generateObstacles (1 / 2) (moveGround (updatePlayer (nearWin 134 9.2)))))) \<and>
   gameOver (collideObstacle 0 (scoreObstacle 0 (moveObstacle 0
     (generateObstacles (1 / 2) (moveGround (updatePlayer (nearWin 134 9.2))))))) \<and>
   currentScoreRef (updateGame (1 / 2) (nearWin 134 9.2)) = 100000 \<and>
   gameWon (updateGame (1 / 2) (nearWin 134 9.2)) \<and>
   gameOver (updateGame (1 / 2) (nearWin 134 9.2))"
  by (simp add: nearWin_def session_defs update_defs upt_0_1)

text \<open>
  C2, amended: a tick that changes the score and leaves it at 99999 or more sets
  \<open>gameWon\<close>, and won is terminal. In a won state the update step leaves the whole
  state as it is, so over any number of further ticks the score, the obstacles, the
  player and the two end flags stay what they are. Within the tick that sets
  \<open>gameWon\<close>, in every state of a run (\<open>spaced\<close>): the score goes up by at most 10 in
  a tick, and once a callback has counted its obstacle, the callbacks of the later
  obstacles of the same iteration change neither the score nor \<open>gameOver\<close>; the score
  and the end flags of the tick are those the loop leaves after its last callback. What
  still runs after the transition is the collision test of the obstacle just counted.
\<close>

theorem won_is_set_and_gates_update:
  "(running st \<longrightarrow> currentScoreRef (updateGame r st) \<noteq> currentScoreRef st \<longrightarrow>
      MAX_SCORE \<le> currentScoreRef (updateGame r st) \<longrightarrow> gameWon (updateGame r st)) \<and>
   (gameWon st \<longrightarrow> updateGame r st = st \<and>
      currentScoreRef (ticks rs n st) = currentScoreRef st \<and>
      obstacles (gameState (ticks rs n st)) = obstacles (gameState st) \<and>
      player (gameState (ticks rs n st)) = player (gameState st) \<and>
      gameOver (ticks rs n st) = gameOver st \<and> gameWon (ticks rs n st)) \<and>
   (spaced st \<longrightarrow> running st \<longrightarrow>
      currentScoreRef (updateGame r st) \<le> currentScoreRef st + 10 \<and>
      (i < j \<longrightarrow>
       currentScoreRef (loopTo (Suc i) (generateObstacles r (moveGround (updatePlayer st)))) \<noteq>
         currentScoreRef (loopTo i (generateObstacles r (moveGround (updatePlayer st)))) \<longrightarrow>
       currentScoreRef (loopTo j (generateObstacles r (moveGround (updatePlayer st)))) =
         currentScoreRef (loopTo (Suc i) (generateObstacles r (moveGround (updatePlayer st)))) \<and>
       gameOver (loopTo j (generateObstacles r (moveGround (updatePlayer st)))) =
         gameOver (loopTo (Suc i) (generateObstacles r (moveGround (updatePlayer st)))))) \<and>
   (running st \<longrightarrow>
      m = length (obstacles (gameState (generateObstacles r (moveGround (updatePlayer st))))) \<longrightarrow>
      currentScoreRef (updateGame r st) =
        currentScoreRef (loopTo m (generateObstacles r (moveGround (updatePlayer st)))) \<and>
      gameOver (updateGame r st) =
        gameOver (loopTo m (generateObstacles r (moveGround (updatePlayer st)))) \<and>
      gameWon (updateGame r st) =
        gameWon (loopTo m (generateObstacles r (moveGround (updatePlayer st)))))"
proof (intro conjI impI)
  assume run: "running st"
    and chg: "currentScoreRef (updateGame r st) \<noteq> currentScoreRef st"
    and top: "MAX_SCORE \<le> currentScoreRef (updateGame r st)"
  let ?s = "generateObstacles r (moveGround (updatePlayer st))"
  from forEachObstacle_won [of ?s] chg top run
  show "gameWon (updateGame r st)"
    by (simp add: updateGame_running)
next
  assume "gameWon st"
  then show "updateGame r st = st" by (simp add: updateGame_def)
next
  assume won: "gameWon st"
  then have "\<not> running st" by (simp add: running_def)
  from ticks_stopped [OF this, of rs n] won
  show "currentScoreRef (ticks rs n st) = currentScoreRef st"
    and "obstacles (gameState (ticks rs n st)) = obstacles (gameState st)"
    and "player (gameState (ticks rs n st)) = player (gameState st)"
    and "gameOver (ticks rs n st) = gameOver st"
    and "gameWon (ticks rs n st)"
    by simp_all
next
  assume sp: "spaced st" and run: "running st"
  let ?p = "generateObstacles r (moveGround (updatePlayer st))"
  have "spaced ?p" using sp by (rule spaced_generateObstacles)
  then have "aheadOk (currentScoreRef ?p) 0 ?p" by (rule spaced_aheadOk)
  then have "aheadOk (currentScoreRef st) 0 ?p" by simp
  from loopTo_aheadOk [OF this, of "length (obstacles (gameState ?p))"]
  have "currentScoreRef (forEachObstacle ?p) \<le> currentScoreRef st + 10"
    by (simp add: forEachObstacle_loopTo aheadOk_def)
  with run show "currentScoreRef (updateGame r st) \<le> currentScoreRef st + 10"
    by (simp add: updateGame_running)
next
  assume sp: "spaced st" and run: "running st" and ij: "i < j"
  let ?p = "generateObstacles r (moveGround (updatePlayer st))"
  assume chg: "currentScoreRef (loopTo (Suc i) ?p) \<noteq> currentScoreRef (loopTo i ?p)"
  have "spaced ?p" using sp by (rule spaced_generateObstacles)
  then have "aheadOk (currentScoreRef ?p) 0 ?p" by (rule spaced_aheadOk)
  then have ok: "aheadOk (currentScoreRef st) 0 ?p" by simp
  from loopTo_aheadOk [OF ok, of i] have "aheadOk (currentScoreRef st) i (loopTo i ?p)" .
  from aheadOk_visit [OF this] chg
  have first: "currentScoreRef (loopTo i ?p) = currentScoreRef st"
    by (auto simp add: loopTo_Suc)
  with chg have later: "currentScoreRef (loopTo (Suc i) ?p) \<noteq> currentScoreRef st" by simp
  from ij have "Suc i \<le> j" by simp
  from loopTo_frozen [OF ok later this]
  show "currentScoreRef (loopTo j ?p) = currentScoreRef (loopTo (Suc i) ?p)"
    and "gameOver (loopTo j ?p) = gameOver (loopTo (Suc i) ?p)"
    by simp_all
next
  assume run: "running st"
  let ?p = "generateObstacles r (moveGround (updatePlayer st))"
  assume m: "m = length (obstacles (gameState ?p))"
  from run m show "currentScoreRef (updateGame r st) = currentScoreRef (loopTo m ?p)"
    and "gameOver (updateGame r st) = gameOver (loopTo m ?p)"
    and "gameWon (updateGame r st) = gameWon (loopTo m ?p)"
    by (simp_all add: updateGame_running forEachObstacle_loopTo updateDifficulty_def Let_def)
qed

lemma nearWinTwo_facts:
  "spaced nearWinTwo" "running nearWinTwo"
  "currentScoreRef (loopTo 0 (generateObstacles (1 / 2) (moveGround (updatePlayer nearWinTwo)))) = 99990"
  "currentScoreRef (loopTo (Suc 0) (generateObstacles (1 / 2) (moveGround (updatePlayer nearWinTwo)))) = 100000"
  "gameWon (loopTo (Suc 0) (generateObstacles (1 / 2) (moveGround (updatePlayer nearWinTwo))))"
  "\<not> gameOver (loopTo (Suc 0) (generateObstacles (1 / 2) (moveGround (updatePlayer nearWinTwo))))"
  "length (obstacles (gameState (generateObstacles (1 / 2) (moveGround (updatePlayer nearWinTwo))))) = 2"
  by (simp_all add: nearWinTwo_def nearWin_def session_defs spaced_def wellFormed_def slackOk_def
        loopTo_def upt_0_1 update_defs)

text \<open>
  A win without a collision; in the won state the update does nothing and three more
  ticks keep the score. And with a second cactus in the list: the first callback wins
  the game, and the callback of the second cactus changes neither score nor
  \<open>gameOver\<close>, so the tick ends with score 100000 and not over.
\<close>

theorem won_is_set_and_gates_update_witness:
  "running (nearWin 13 (- 4)) \<and>
   currentScoreRef (updateGame (1 / 2) (nearWin 13 (- 4))) \<noteq> currentScoreRef (nearWin 13 (- 4)) \<and>
   MAX_SCORE \<le> currentScoreRef (updateGame (1 / 2) (nearWin 13 (- 4))) \<and>
   gameWon (updateGame (1 / 2) (nearWin 13 (- 4))) \<and>
   updateGame (1 / 4) (updateGame (1 / 2) (nearWin 13 (- 4))) = updateGame (1 / 2) (nearWin 13 (- 4)) \<and>
   currentScoreRef (ticks (\<lambda>_. 1 / 4) 3 (updateGame (1 / 2) (nearWin 13 (- 4)))) = 100000 \<and>
   spaced nearWinTwo \<and> running nearWinTwo \<and>
   currentScoreRef (loopTo (Suc 0) (generateObstacles (1 / 2) (moveGround (updatePlayer nearWinTwo)))) \<noteq>
     currentScoreRef (loopTo 0 (generateObstacles (1 / 2) (moveGround (updatePlayer nearWinTwo)))) \<and>
   currentScoreRef (loopTo 2 (generateObstacles (1 / 2) (moveGround (updatePlayer nearWinTwo)))) = 100000 \<and>
   \<not> gameOver (loopTo 2 (generateObstacles (1 / 2) (moveGround (updatePlayer nearWinTwo)))) \<and>
   currentScoreRef (updateGame (1 / 2) nearWinTwo) \<le> currentScoreRef nearWinTwo + 10 \<and>
   currentScoreRef (updateGame (1 / 2) nearWinTwo) = 100000 \<and>
   \<not> gameOver (updateGame (1 / 2) nearWinTwo)"
proof -
  have h: "running (nearWin 13 (- 4))"
    "currentScoreRef (updateGame (1 / 2) (nearWin 13 (- 4))) \<noteq> currentScoreRef (nearWin 13 (- 4))"
    "MAX_SCORE \<le> currentScoreRef (updateGame (1 / 2) (nearWin 13 (- 4)))"
    by (simp_all add: nearWin_high MAX_SCORE_def)
  from won_is_set_and_gates_update [of "nearWin 13 (- 4)" "1 / 2"] h
  have w: "gameWon (updateGame (1 / 2) (nearWin 13 (- 4)))" by blast
  from won_is_set_and_gates_update
         [of "updateGame (1 / 2) (nearWin 13 (- 4))" "1 / 4" "\<lambda>_. 1 / 4" 3] w
  have g: "updateGame (1 / 4) (updateGame (1 / 2) (nearWin 13 (- 4))) = updateGame (1 / 2) (nearWin 13 (- 4))"
    "currentScoreRef (ticks (\<lambda>_. 1 / 4) 3 (updateGame (1 / 2) (nearWin 13 (- 4)))) =
       currentScoreRef (updateGame (1 / 2) (nearWin 13 (- 4)))"
    by blast+
  let ?p = "generateObstacles (1 / 2) (moveGround (updatePlayer nearWinTwo))"
  have c: "currentScoreRef (loopTo (Suc 0) ?p) \<noteq> currentScoreRef (loopTo 0 ?p)"
    by (simp add: nearWinTwo_facts)
  have ij: "(0::nat) < 2" by simp
  from won_is_set_and_gates_update [of nearWinTwo "1 / 2" _ _ 0 2 2]
    nearWinTwo_facts(1,2) nearWinTwo_facts(7) [symmetric] c ij
  have l: "currentScoreRef (updateGame (1 / 2) nearWinTwo) \<le> currentScoreRef nearWinTwo + 10"
    "currentScoreRef (loopTo 2 ?p) = currentScoreRef (loopTo (Suc 0) ?p)"
    "gameOver (loopTo 2 ?p) = gameOver (loopTo (Suc 0) ?p)"
    "currentScoreRef (updateGame (1 / 2) nearWinTwo) = currentScoreRef (loopTo 2 ?p)"
    "gameOver (updateGame (1 / 2) nearWinTwo) = gameOver (loopTo 2 ?p)"
    by blast+
  from h w g c l show ?thesis by (simp add: nearWin_high nearWinTwo_facts)
qed

section \<open>Removing obstacles\<close>



section \<open>The collision test\<close>




section \<open>Loading the high score\<close>

text \<open>What the claim gets right: with no stored item, or an empty one, the high score is 0.\<close>

lemma missing_high_score_is_zero:
  "getItem store (utf16 ''trex-high-score'') = None \<or>
   getItem store (utf16 ''trex-high-score'') = Some [] \<Longrightarrow>
   highScore (mount store) = Num 0"
  by (auto simp add: mount_def loadHighScore_def initialSession_def)

text \<open>
  C5: the claim asks for a non-numeric stored value to count as high score 0. The
  mount effect guards only against a missing (or empty) item: any other string goes
  through \<open>parseInt\<close>, and when that finds no number the high score is \<open>NaN\<close>, not 0.
  No score exceeds \<open>NaN\<close>, so from then on the high-score effect never fires.
\<close>

theorem non_numeric_high_score_is_NaN:
  assumes "getItem store (utf16 ''trex-high-score'') = Some saved" and "saved \<noteq> []"
    and "parseInt saved = NaN"
  shows "highScore (mount store) = NaN \<and>
         (\<forall>st. highScore st = NaN \<longrightarrow> highScoreEffect st = st)"
  using assms
  by (simp add: mount_def loadHighScore_def initialSession_def highScoreEffect_def)

theorem non_numeric_high_score_is_NaN_witness:
  "getItem corruptStorage (utf16 ''trex-high-score'') = Some (utf16 ''abc'') \<and>
   utf16 ''abc'' \<noteq> [] \<and> parseInt (utf16 ''abc'') = NaN \<and>
   highScore (mount corruptStorage) = NaN \<and> highScore (mount corruptStorage) \<noteq> Num 0"
proof -
  have h: "getItem corruptStorage (utf16 ''trex-high-score'') = Some (utf16 ''abc'')"
    "utf16 ''abc'' \<noteq> []" "parseInt (utf16 ''abc'') = NaN"
    by (simp_all add: corruptStorage_def getItem_def parseInt_def isWhiteSpace_def isDigit_def
          utf16_def)
  from non_numeric_high_score_is_NaN [OF h] h show ?thesis by simp
qed

section \<open>The theme\<close>

text \<open>
  C6: \<open>checkThemeChange\<close>, called with the new score, flips the theme flag exactly when
  the quotient of the new score by 120 differs from the quotient of the last
  theme-change score by 120, and on a flip records the new score (the new score is
  never in an earlier block of 120 than the recorded one). Over a whole running tick,
  started with the recorded score in the same block of 120 as the score, the flag is
  flipped once for each multiple of 120 the score crosses, however many obstacles are
  counted: it ends flipped exactly when that number is odd, and the recorded score is
  again in the block of the score.
\<close>

theorem theme_flips_once_per_threshold:
  assumes "running st"
    and "lastThemeChangeScore (gameState st) div 120 = currentScoreRef st div 120"
  shows "(lastThemeChangeScore (gameState s) div 120 \<le> sc div 120 \<longrightarrow>
            (darkTheme (checkThemeChange sc s) \<noteq> darkTheme s) =
              (sc div 120 \<noteq> lastThemeChangeScore (gameState s) div 120) \<and>
            lastThemeChangeScore (gameState (checkThemeChange sc s)) =
              (if darkTheme (checkThemeChange sc s) \<noteq> darkTheme s then sc
               else lastThemeChangeScore (gameState s))) \<and>
         darkTheme (updateGame r st) =
           (darkTheme st \<noteq> odd (currentScoreRef (updateGame r st) div 120 - currentScoreRef st div 120)) \<and>
         lastThemeChangeScore (gameState (updateGame r st)) div 120 =
           currentScoreRef (updateGame r st) div 120"
proof (intro conjI impI)
  assume q: "lastThemeChangeScore (gameState s) div 120 \<le> sc div 120"
  then show "(darkTheme (checkThemeChange sc s) \<noteq> darkTheme s) =
               (sc div 120 \<noteq> lastThemeChangeScore (gameState s) div 120)"
    by (auto simp add: checkThemeChange_theme)
  show "lastThemeChangeScore (gameState (checkThemeChange sc s)) =
          (if darkTheme (checkThemeChange sc s) \<noteq> darkTheme s then sc
           else lastThemeChangeScore (gameState s))"
    by (simp add: checkThemeChange_theme)
next
  let ?s = "generateObstacles r (moveGround (updatePlayer st))"
  have pre: "lastThemeChangeScore (gameState ?s) div 120 = currentScoreRef ?s div 120"
    using assms(2) by simp
  from forEachObstacle_theme [OF pre] assms(1)
  show "darkTheme (updateGame r st) =
          (darkTheme st \<noteq> odd (currentScoreRef (updateGame r st) div 120 - currentScoreRef st div 120))"
    and "lastThemeChangeScore (gameState (updateGame r st)) div 120 =
           currentScoreRef (updateGame r st) div 120"
    by (simp_all add: updateGame_running)
qed

text \<open>
  The example of the claim: the score goes from 115 to 135 in one tick, over two
  obstacles, and the theme ends flipped.
\<close>

theorem theme_flips_once_per_threshold_witness:
  "running doublePass \<and> currentScoreRef doublePass = 115 \<and>
   currentScoreRef (updateGame (1 / 2) doublePass) = 135 \<and>
   darkTheme (updateGame (1 / 2) doublePass) = (\<not> darkTheme doublePass) \<and>
   lastThemeChangeScore (gameState (updateGame (1 / 2) doublePass)) div 120 = 1"
proof -
  have r: "running doublePass" by (simp add: doublePass_def session_defs)
  have q: "lastThemeChangeScore (gameState doublePass) div 120 = currentScoreRef doublePass div 120"
    by (simp add: doublePass_def session_defs)
  have s: "currentScoreRef doublePass = 115" "currentScoreRef (updateGame (1 / 2) doublePass) = 135"
    by (simp_all add: doublePass_def session_defs update_defs upt_0_2)
  from theme_flips_once_per_threshold [OF r q, of doublePass 125 "1 / 2"] r s
  show ?thesis by simp
qed

text \<open>Every state a session reaches meets the condition on the recorded score.\<close>

lemma reachable_theme_block:
  "reachable st \<Longrightarrow> lastThemeChangeScore (gameState st) div 120 = currentScoreRef st div 120"
  using reachable_sessionInv [of st] by (simp add: sessionInv_def)

section \<open>Jumping and landing\<close>

lemma ticks_gravity: "gravity (gameState (ticks rs n s)) = gravity (gameState s)"
proof (induction n)
  case 0
  show ?case by simp
next
  case (Suc n)
  show ?case
  proof (cases "running (ticks rs n s)")
    case True
    with Suc show ?thesis by (simp add: gameLoop_def updateGame_player)
  next
    case False
    with Suc show ?thesis by (simp add: gameLoop_def updateGame_stopped)
  qed
qed

lemma gameLoop_player:
  "running s \<Longrightarrow> player (gameState (gameLoop r s)) = player (gameState (updatePlayer s))"
  by (simp add: gameLoop_def updateGame_player)

lemma updatePlayer_air:
  assumes "isJumping (player (gameState s))" and "isJumping (player (gameState (updatePlayer s)))"
  shows "velocityY (player (gameState (updatePlayer s))) = velocityY (player (gameState s)) + gravity (gameState s)"
    and "y (player (gameState (updatePlayer s))) =
           y (player (gameState s)) + (velocityY (player (gameState s)) + gravity (gameState s))"
    and "y (player (gameState (updatePlayer s))) < 150"
  using assms by (simp_all add: updatePlayer_def Let_def split: if_splits)

lemma updatePlayer_land:
  assumes "isJumping (player (gameState s))" and "\<not> isJumping (player (gameState (updatePlayer s)))"
  shows "landed (updatePlayer s)"
  using assms by (simp add: updatePlayer_def Let_def landed_def split: if_splits)

text \<open>
  While the player stays in the air, the velocity grows by the gravity each tick and
  the height follows the sum of the velocities.
\<close>

lemma flight_closed_form:
  assumes grav: "gravity (gameState s) = 3 / 10"
    and run: "\<forall>j. isJumping (player (gameState (ticks rs j s))) \<longrightarrow> running (ticks rs j s)"
  shows "(\<forall>j \<le> k. isJumping (player (gameState (ticks rs j s)))) \<Longrightarrow>
         velocityY (player (gameState (ticks rs k s))) =
           velocityY (player (gameState s)) + 3 / 10 * real k \<and>
         y (player (gameState (ticks rs k s))) =
           y (player (gameState s)) + real k * velocityY (player (gameState s))
             + 3 / 20 * real k * (real k + 1) \<and>
         (0 < k \<longrightarrow> y (player (gameState (ticks rs k s))) < 150)"
proof (induction k)
  case 0
  show ?case by simp
next
  case (Suc k)
  let ?t = "ticks rs k s"
  from Suc.prems have air: "isJumping (player (gameState ?t))" by simp
  with run have r: "running ?t" by blast
  from Suc.prems have "isJumping (player (gameState (ticks rs (Suc k) s)))" by blast
  with r have air': "isJumping (player (gameState (updatePlayer ?t)))"
    by (simp add: gameLoop_player)
  from Suc.prems have "\<forall>j \<le> k. isJumping (player (gameState (ticks rs j s)))" by simp
  then have ih: "velocityY (player (gameState ?t)) = velocityY (player (gameState s)) + 3 / 10 * real k"
    "y (player (gameState ?t)) =
       y (player (gameState s)) + real k * velocityY (player (gameState s)) + 3 / 20 * real k * (real k + 1)"
    using Suc.IH by simp_all
  have g: "gravity (gameState ?t) = 3 / 10"
    using grav by (simp add: ticks_gravity)
  have p: "player (gameState (ticks rs (Suc k) s)) = player (gameState (updatePlayer ?t))"
    using r by (simp add: gameLoop_player)
  from updatePlayer_air [OF air air'] g ih
  show ?case
    unfolding p by (simp add: algebra_simps)
qed

lemma first_landing:
  "isJumping (player (gameState (ticks rs 0 s))) \<Longrightarrow>
   \<not> isJumping (player (gameState (ticks rs n s))) \<Longrightarrow>
   \<exists>k. isJumping (player (gameState (ticks rs k s))) \<and>
       \<not> isJumping (player (gameState (ticks rs (Suc k) s)))"
proof (induction n)
  case 0
  then show ?case by simp
next
  case (Suc n)
  show ?case
  proof (cases "isJumping (player (gameState (ticks rs n s)))")
    case True
    with Suc.prems show ?thesis by blast
  next
    case False
    with Suc.IH Suc.prems(1) show ?thesis by blast
  qed
qed

text \<open>
  A flight cannot go on for ever: after enough ticks the closed form puts the player at
  or below the ground line, where the step would have landed it.
\<close>

lemma flight_ends:
  assumes grav: "gravity (gameState s) = 3 / 10"
    and v0: "velocityY (player (gameState s)) = - 10"
    and run: "\<forall>j. isJumping (player (gameState (ticks rs j s))) \<longrightarrow> running (ticks rs j s)"
  shows "\<exists>n. \<not> isJumping (player (gameState (ticks rs n s)))"
proof (rule ccontr)
  assume "\<not> ?thesis"
  then have air: "\<forall>j. isJumping (player (gameState (ticks rs j s)))" by simp
  define h where "h = y (player (gameState s))"
  define N where "N = max 67 (nat \<lceil>5 * (150 - h)\<rceil>)"
  have N67: "67 \<le> real N" by (simp add: N_def)
  have Nh: "5 * (150 - h) \<le> real N"
  proof -
    have "5 * (150 - h) \<le> real_of_int \<lceil>5 * (150 - h)\<rceil>" by (rule le_of_int_ceiling)
    also have "\<dots> \<le> real (nat \<lceil>5 * (150 - h)\<rceil>)" by simp
    also have "\<dots> \<le> real N" by (simp add: N_def)
    finally show ?thesis .
  qed
  from air have "\<forall>j \<le> N. isJumping (player (gameState (ticks rs j s)))" by simp
  from flight_closed_form [OF grav run this] v0 N67
  have yN: "y (player (gameState (ticks rs N s))) = h + real N * (- 10) + 3 / 20 * real N * (real N + 1)"
    and below: "y (player (gameState (ticks rs N s))) < 150"
    by (simp_all add: h_def)
  have "real N * (1 / 5) \<le> real N * (3 / 20 * (real N + 1) - 10)"
    by (rule mult_left_mono) (use N67 in simp_all)
  then have "h + real N * (1 / 5) \<le> h + real N * (- 10) + 3 / 20 * real N * (real N + 1)"
    by (simp add: algebra_simps)
  with yN below Nh show False by simp
qed

lemma lateJump_hit:
  "running lateJump" "\<not> isJumping (player (gameState lateJump))"
  "isJumping (player (gameState (jump lateJump)))"
  "gameOver (updateGame (1 / 2) (jump lateJump))"
  "isJumping (player (gameState (updateGame (1 / 2) (jump lateJump))))"
  by (simp_all add: lateJump_def session_defs update_defs upt_0_1)

text \<open>
  C9, as stated, fails when the run ends during the jump: the update step of a game
  that is over does nothing, so the player stays where the collision found it. With a
  cactus just right of the player, the jump comes too late; the first tick ends the
  game with the player in the air, and no number of ticks lands it.
\<close>

theorem late_jump_never_lands:
  "running lateJump \<and> \<not> isJumping (player (gameState lateJump)) \<and>
   \<not> (\<exists>n. landed (ticks (\<lambda>_. 1 / 2) n (jump lateJump)))"
proof -
  have "\<not> landed (ticks (\<lambda>_. 1 / 2) n (jump lateJump))" for n
  proof (cases n)
    case 0
    then show ?thesis by (simp add: landed_def lateJump_hit)
  next
    case (Suc m)
    let ?s = "gameLoop (1 / 2) (jump lateJump)"
    have over: "\<not> running ?s"
      by (simp add: gameLoop_def running_def lateJump_hit)
    have air: "isJumping (player (gameState ?s))"
      by (simp add: gameLoop_def lateJump_hit)
    from ticks_stopped [OF over, of "\<lambda>_. 1 / 2" m] air
    have "isJumping (player (gameState (ticks (\<lambda>_. 1 / 2) m ?s)))" by simp
    with Suc show ?thesis
      by (simp only: ticks_const_Suc landed_def simp_thms)
  qed
  then show ?thesis by (simp add: lateJump_hit)
qed

text \<open>
  C9, amended: if the jump command is issued while the game is running and the player
  is on the ground, with jump power \<open>- 10\<close> and gravity \<open>0.3\<close>, the player's velocity
  becomes \<open>- 10\<close> and \<open>isJumping\<close> becomes true; and if the run is not ended while the
  player is in the air (whenever the player is in the air at the start of a tick, the
  game is running), then after some finite number of ticks the player is at height
  150 with \<open>isJumping\<close> false and velocity 0.
\<close>

theorem jump_then_land:
  assumes "running st" and "\<not> isJumping (player (gameState st))"
    and "jumpPower (gameState st) = - 10" and "gravity (gameState st) = 0.3"
    and run: "\<forall>k. isJumping (player (gameState (ticks rs k (jump st)))) \<longrightarrow> running (ticks rs k (jump st))"
  shows "velocityY (player (gameState (jump st))) = - 10 \<and>
         isJumping (player (gameState (jump st))) \<and>
         (\<exists>n. landed (ticks rs n (jump st)))"
proof -
  let ?s = "jump st"
  from assms(1-4) have v: "velocityY (player (gameState ?s)) = - 10"
    and j: "isJumping (player (gameState ?s))"
    and g: "gravity (gameState ?s) = 3 / 10"
    by (simp_all add: jump_def running_def)
  from flight_ends [OF g v run] obtain n
    where "\<not> isJumping (player (gameState (ticks rs n ?s)))" ..
  with first_landing [of rs ?s n] j obtain k
    where before: "isJumping (player (gameState (ticks rs k ?s)))"
      and after: "\<not> isJumping (player (gameState (ticks rs (Suc k) ?s)))"
    by auto
  from run before have r: "running (ticks rs k ?s)" by blast
  then have p: "player (gameState (ticks rs (Suc k) ?s)) = player (gameState (updatePlayer (ticks rs k ?s)))"
    by (simp add: gameLoop_player)
  from after have "\<not> isJumping (player (gameState (updatePlayer (ticks rs k ?s))))"
    unfolding p .
  with before have "landed (updatePlayer (ticks rs k ?s))" by (rule updatePlayer_land)
  then have "landed (ticks rs (Suc k) ?s)"
    unfolding landed_def p .
  with v j show ?thesis by blast
qed

lemma newSpawnRate_half: "newSpawnRate sc \<le> 1 / 2"
  by (simp add: newSpawnRate_def min_def)

lemma quiet_gameLoop: "quiet s \<Longrightarrow> quiet (gameLoop (1 / 2) s)"
  using newSpawnRate_half [of "currentScoreRef s"]
  by (simp add: quiet_def gameLoop_def)
     (simp add: running_def updateGame_def updatePlayer_def moveGround_def
        generateObstacles_def forEachObstacle_def updateDifficulty_def Let_def)

lemma quiet_ticks: "quiet s \<Longrightarrow> quiet (ticks (\<lambda>_. 1 / 2) n s)"
  by (induction n) (simp_all add: quiet_gameLoop)

text \<open>A fresh game in which no obstacle is spawned: the jump ends on the ground.\<close>

theorem jump_then_land_witness:
  "running startedGame \<and> \<not> isJumping (player (gameState startedGame)) \<and>
   jumpPower (gameState startedGame) = - 10 \<and> gravity (gameState startedGame) = 0.3 \<and>
   velocityY (player (gameState (jump startedGame))) = - 10 \<and>
   isJumping (player (gameState (jump startedGame))) \<and>
   (\<exists>n. landed (ticks (\<lambda>_. 1 / 2) n (jump startedGame)))"
proof -
  have h: "running startedGame" "\<not> isJumping (player (gameState startedGame))"
    "jumpPower (gameState startedGame) = - 10" "gravity (gameState startedGame) = 0.3"
    by (simp_all add: session_defs)
  have "quiet (jump startedGame)" by (simp add: quiet_def session_defs)
  then have "\<forall>k. isJumping (player (gameState (ticks (\<lambda>_. 1 / 2) k (jump startedGame)))) \<longrightarrow>
                 running (ticks (\<lambda>_. 1 / 2) k (jump startedGame))"
    using quiet_ticks [of "jump startedGame"] by (simp add: quiet_def)
  from jump_then_land [OF h this] h show ?thesis by blast
qed

text \<open>In every state a session reaches, jump power and gravity have these values.\<close>

lemma reachable_constants:
  "reachable st \<Longrightarrow> jumpPower (gameState st) = - 10 \<and> gravity (gameState st) = 0.3"
  using reachable_sessionInv [of st] by (simp add: sessionInv_def)

section \<open>The jump command in the air\<close>

text \<open>
  C10: while the game is running (started, not over, not won) and the player is already
  in the air, the jump command changes nothing at all: the whole component state after
  the call is the state before it.
\<close>

theorem jump_airborne_unchanged:
  "gameStarted st \<Longrightarrow> \<not> gameOver st \<Longrightarrow> \<not> gameWon st \<Longrightarrow>
   isJumping (player (gameState st)) \<Longrightarrow> jump st = st"
  by (simp add: jump_def)

theorem jump_airborne_unchanged_witness:
  "gameStarted (jump startedGame) \<and> \<not> gameOver (jump startedGame) \<and>
   \<not> gameWon (jump startedGame) \<and> isJumping (player (gameState (jump startedGame))) \<and>
   jump (jump startedGame) = jump startedGame"
proof -
  have h: "gameStarted (jump startedGame)" "\<not> gameOver (jump startedGame)"
    "\<not> gameWon (jump startedGame)" "isJumping (player (gameState (jump startedGame)))"
    by (simp_all add: session_defs)
  from jump_airborne_unchanged [OF h] h show ?thesis by simp
qed

end
